theory Spec2Isabelle
  imports Complex_Main
begin

section \<open>Values on the wire\<close>

text \<open>
  The relay (\<^verbatim>\<open>nextstop-relay/server.js\<close>, and its earlier version
  \<^verbatim>\<open>nextstop-relay/index.js\<close>) receives text frames, parses them with
  \<^verbatim>\<open>JSON.parse\<close> and answers with \<^verbatim>\<open>JSON.stringify\<close> of an object it builds.
  A parsed frame is a value of type \<open>json\<close>; an object keeps its members in order,
  as a JavaScript object keeps its insertion order. A frame that does not parse is
  \<open>None\<close> where a handler takes a \<open>json option\<close>.

  JavaScript strings are modelled as \<open>string\<close>, one \<open>char\<close> per code unit, for the
  code units below 256. Numbers of a frame are only copied by the relay, never
  computed with; a number is the rational it stands for. \<^verbatim>\<open>console.log\<close> and \<^verbatim>\<open>console.warn\<close>
  reach no client and are left out of the model.
\<close>

datatype json =
    JNull
  | JBool bool
  | JNum rat
  | JStr string
  | JArr "json list"
  | JObj "(string \<times> json) list"

text \<open>\<^verbatim>\<open>!msg || typeof msg !== "object"\<close> is false exactly for arrays and objects.\<close>

fun is_object :: "json \<Rightarrow> bool" where
  "is_object (JObj kvs) = True"
| "is_object (JArr xs) = True"
| "is_object v = False"

text \<open>
  \<^verbatim>\<open>msg.k\<close> for the member names the relay reads; \<open>None\<close> is \<^verbatim>\<open>undefined\<close>.
  \<^verbatim>\<open>JSON.parse\<close> keeps the last of two members with one name.
\<close>

fun field :: "json \<Rightarrow> string \<Rightarrow> json option" where
  "field (JObj kvs) k = map_of (rev kvs) k"
| "field v k = None"

text \<open>
  \<^verbatim>\<open>String.prototype.trim\<close>: the white space and line terminators of ECMAScript
  among the code units below 256 are TAB, LF, VT, FF, CR, SP and NBSP.
\<close>

definition is_ws :: "char \<Rightarrow> bool" where
  "is_ws c = (c = CHR 0x09 \<or> c = CHR 0x0A \<or> c = CHR 0x0B \<or> c = CHR 0x0C
     \<or> c = CHR 0x0D \<or> c = CHR 0x20 \<or> c = CHR 0xA0)"

definition trim :: "string \<Rightarrow> string" where
  "trim s = rev (dropWhile is_ws (rev (dropWhile is_ws s)))"

text \<open>\<^verbatim>\<open>typeof msg.k === "string" ? msg.k.trim() : ""\<close>\<close>

definition trimmed_field :: "json \<Rightarrow> string \<Rightarrow> string" where
  "trimmed_field msg k = (case field msg k of Some (JStr s) \<Rightarrow> trim s | _ \<Rightarrow> [])"

section \<open>JavaScript numbers\<close>

text \<open>
  The rate limiter computes with JavaScript numbers, IEEE 754 doubles: every
  operation gives the double nearest to the exact result, the one with the even
  significand when two are equally near. A finite double is modelled as the rational
  it stands for, and \<open>fl\<close> rounds a rational to the nearest double: 53 significant
  bits, exponents from -1022 on (below, the spacing stays \<open>2^-1074\<close>).

  Two things of the doubles are not modelled. Infinity: a result beyond the largest
  double is rounded like any other. The clock readings of \<^verbatim>\<open>Date.now()\<close> are time
  values, integers of at most 8.64e15 in magnitude, and with these no operation of
  the limiter comes near the largest double. The sign of zero: the limiter only
  adds, subtracts, multiplies, divides by 1000, takes the smaller of two numbers and
  compares with 1, and none of these tells the two zeros apart in what follows.
\<close>

text \<open>The number of binary digits of a natural number.\<close>

fun bits :: "nat \<Rightarrow> nat" where
  "bits n = (if n = 0 then 0 else Suc (bits (n div 2)))"

declare bits.simps [simp del]

definition pow2 :: "int \<Rightarrow> rat" where
  "pow2 k = (if 0 \<le> k then 2 ^ nat k else 1 / 2 ^ nat (- k))"

text \<open>The exponent of a rational that is not zero: the \<open>e\<close> with \<open>2^e \<le> \<bar>x\<bar> < 2^(e+1)\<close>.\<close>

definition expo :: "rat \<Rightarrow> int" where
  "expo x = (if 1 \<le> \<bar>x\<bar> then int (bits (nat \<lfloor>\<bar>x\<bar>\<rfloor>)) - 1
             else - int (bits (nat (\<lceil>1 / \<bar>x\<bar>\<rceil> - 1))))"

text \<open>The nearest integer, the even one of two that are equally near.\<close>

definition round_even :: "rat \<Rightarrow> int" where
  "round_even x =
     (let f = \<lfloor>x\<rfloor>; r = x - of_int f
      in if r < 1 / 2 then f else if 1 / 2 < r then f + 1 else if even f then f else f + 1)"

definition fl :: "rat \<Rightarrow> rat" where
  "fl x = (if x = 0 then 0
           else let q = pow2 (max (expo x) (- 1022) - 52) in of_int (round_even (x / q)) * q)"

text \<open>\<^verbatim>\<open>a + b\<close>, \<^verbatim>\<open>a - b\<close>, \<^verbatim>\<open>a * b\<close> and \<^verbatim>\<open>a / b\<close> on doubles.\<close>

definition js_add :: "rat \<Rightarrow> rat \<Rightarrow> rat" where
  "js_add a b = fl (a + b)"

definition js_sub :: "rat \<Rightarrow> rat \<Rightarrow> rat" where
  "js_sub a b = fl (a - b)"

definition js_mul :: "rat \<Rightarrow> rat \<Rightarrow> rat" where
  "js_mul a b = fl (a * b)"

definition js_div :: "rat \<Rightarrow> rat \<Rightarrow> rat" where
  "js_div a b = fl (a / b)"

section \<open>The relay of server.js\<close>

subsection \<open>State\<close>

datatype role = Driver | Viewer

fun role_name :: "role \<Rightarrow> string" where
  "role_name Driver = ''driver''"
| "role_name Viewer = ''viewer''"

text \<open>The \<^verbatim>\<open>readyState\<close> of a socket of the \<^verbatim>\<open>ws\<close> library.\<close>

datatype ready_state = CONNECTING | OPEN | CLOSING | CLOSED

text \<open>
  \<^verbatim>\<open>meta.rate = { tokens, last }\<close>. The tokens are a JavaScript number, that is a
  double, given here by the rational it stands for. \<^verbatim>\<open>Date.now()\<close> is an integer
  of milliseconds.
\<close>

record bucket =
  tokens :: rat
  last_ms :: int

text \<open>
  \<^verbatim>\<open>ws.meta = { role, deviceId, rate, remote }\<close>; \<open>None\<close> is \<^verbatim>\<open>null\<close>. The remote
  address is only logged.
\<close>

record meta_t =
  role :: "role option"
  deviceId :: "string option"
  rate :: "bucket option"

record room =
  driver :: "nat option"
  viewers :: "nat list"

record route_meta =
  routeId :: "string option"
  direction :: "string option"

text \<open>
  Sockets are numbered. The four module-level maps of server.js, and for every socket
  its \<^verbatim>\<open>meta\<close> and its \<^verbatim>\<open>readyState\<close>. A \<^verbatim>\<open>Set\<close> of viewers is a list without
  repetition in insertion order, the order \<^verbatim>\<open>forEach\<close> visits.
\<close>

record state =
  meta :: "nat \<Rightarrow> meta_t"
  readyState :: "nat \<Rightarrow> ready_state"
  rooms :: "string \<rightharpoonup> room"
  latestTelemetry :: "string \<rightharpoonup> json"
  names :: "string \<rightharpoonup> string"
  routeMeta :: "string \<rightharpoonup> route_meta"

definition meta0 :: meta_t where
  "meta0 = \<lparr>role = None, deviceId = None, rate = None\<rparr>"

definition init :: state where
  "init = \<lparr>meta = (\<lambda>ws. meta0), readyState = (\<lambda>ws. CONNECTING), rooms = Map.empty,
     latestTelemetry = Map.empty, names = Map.empty, routeMeta = Map.empty\<rparr>"

text \<open>What the relay does to its sockets: \<^verbatim>\<open>ws.send(JSON.stringify(payload))\<close> and
  \<^verbatim>\<open>ws.close(code, reason)\<close>.\<close>

datatype effect = Send nat json | Close nat nat string

definition TELEMETRY_LIMIT_PER_SEC :: rat where
  "TELEMETRY_LIMIT_PER_SEC = 5"

subsection \<open>Room registry\<close>

definition ensureRoom :: "string \<Rightarrow> state \<Rightarrow> room \<times> state" where
  "ensureRoom d s =
     (case rooms s d of
        None \<Rightarrow> (\<lparr>driver = None, viewers = []\<rparr>,
                  s\<lparr>rooms := (rooms s)(d \<mapsto> \<lparr>driver = None, viewers = []\<rparr>)\<rparr>)
      | Some r \<Rightarrow> (r, s))"

definition removeSocketFromRoom :: "nat \<Rightarrow> state \<Rightarrow> state" where
  "removeSocketFromRoom ws s =
     (case deviceId (meta s ws) of
        None \<Rightarrow> s
      | Some d \<Rightarrow>
          if d = [] then s
          else (case rooms s d of
            None \<Rightarrow> s
          | Some r \<Rightarrow>
              let r' = (if role (meta s ws) = Some Driver \<and> driver r = Some ws
                          then r\<lparr>driver := None\<rparr>
                        else if role (meta s ws) = Some Viewer
                          then r\<lparr>viewers := removeAll ws (viewers r)\<rparr>
                        else r)
              in if driver r' = None \<and> viewers r' = []
                 then s\<lparr>rooms := (rooms s)(d := None),
                         latestTelemetry := (latestTelemetry s)(d := None)\<rparr>
                 else s\<lparr>rooms := (rooms s)(d \<mapsto> r')\<rparr>))"

definition sendJson :: "state \<Rightarrow> nat \<Rightarrow> json \<Rightarrow> effect list" where
  "sendJson s ws payload = (if readyState s ws = OPEN then [Send ws payload] else [])"

text \<open>
  \<^verbatim>\<open>ws.close(code, reason)\<close> starts the closing handshake: an open socket becomes
  \<^verbatim>\<open>CLOSING\<close>; its \<^verbatim>\<open>close\<close> event comes later.
\<close>

definition close_socket :: "nat \<Rightarrow> state \<Rightarrow> state" where
  "close_socket ws s =
     s\<lparr>readyState := (readyState s)(ws := (if readyState s ws = OPEN then CLOSING
                                              else readyState s ws))\<rparr>"

definition set_add :: "nat \<Rightarrow> nat list \<Rightarrow> nat list" where
  "set_add ws vs = (if ws \<in> set vs then vs else vs @ [ws])"

definition assignSocketToRoom :: "nat \<Rightarrow> string \<Rightarrow> role \<Rightarrow> state \<Rightarrow> state \<times> effect list" where
  "assignSocketToRoom ws d r s =
     (let s1 = removeSocketFromRoom ws s;
          (rm, s2) = ensureRoom d s1;
          s3 = s2\<lparr>meta := (meta s2)(ws := (meta s2 ws)\<lparr>role := Some r, deviceId := Some d\<rparr>)\<rparr>
      in case r of
           Driver \<Rightarrow>
             (case driver rm of
                Some p \<Rightarrow>
                  if p \<noteq> ws
                  then ((close_socket p s3)\<lparr>rooms := (rooms s3)(d \<mapsto> rm\<lparr>driver := Some ws\<rparr>)\<rparr>,
                        [Close p 1001 ''driver replaced''])
                  else (s3\<lparr>rooms := (rooms s3)(d \<mapsto> rm\<lparr>driver := Some ws\<rparr>)\<rparr>, [])
              | None \<Rightarrow> (s3\<lparr>rooms := (rooms s3)(d \<mapsto> rm\<lparr>driver := Some ws\<rparr>)\<rparr>, []))
         | Viewer \<Rightarrow>
             (let s4 = s3\<lparr>rooms := (rooms s3)(d \<mapsto> rm\<lparr>viewers := set_add ws (viewers rm)\<rparr>)\<rparr>
              in case latestTelemetry s4 d of
                   Some snapshot \<Rightarrow> (s4, sendJson s4 ws snapshot)
                 | None \<Rightarrow> (s4, [])))"

subsection \<open>Protocol validator\<close>

definition quoted :: "string \<Rightarrow> string" where
  "quoted s = [CHR 0x22] @ s @ [CHR 0x22]"

text \<open>The result is the error text, or \<open>None\<close> for \<^verbatim>\<open>null\<close>.\<close>

definition validateHello :: "json \<Rightarrow> string option" where
  "validateHello msg =
     (if \<not> is_object msg then Some ''Payload must be object''
      else if field msg ''type'' \<noteq> Some (JStr ''hello'')
        then Some (''Expected type '' @ quoted ''hello'')
      else if field msg ''role'' \<noteq> Some (JStr ''driver'') \<and> field msg ''role'' \<noteq> Some (JStr ''viewer'')
        then Some ''Role must be driver or viewer''
      else (case field msg ''deviceId'' of
              Some (JStr d) \<Rightarrow> if trim d = [] then Some ''deviceId required'' else None
            | _ \<Rightarrow> Some ''deviceId required''))"

text \<open>
  \<^verbatim>\<open>typeof v !== "number" || Number.isNaN(v)\<close>: a parsed frame holds no NaN, so the
  test fails exactly on a member that is not a number.
\<close>

fun not_number :: "json option \<Rightarrow> bool" where
  "not_number (Some (JNum x)) = False"
| "not_number v = True"

definition validateTelemetry :: "json \<Rightarrow> string option" where
  "validateTelemetry msg =
     (if \<not> is_object msg then Some ''Payload must be object''
      else if field msg ''type'' \<noteq> Some (JStr ''telemetry'')
        then Some (''Expected type '' @ quoted ''telemetry'')
      else if (case field msg ''deviceId'' of Some (JStr d) \<Rightarrow> trim d = [] | _ \<Rightarrow> True)
        then Some ''deviceId required''
      else if not_number (field msg ''lat'') then Some ''lat must be number''
      else if not_number (field msg ''lng'') then Some ''lng must be number''
      else if not_number (field msg ''ts'') then Some ''ts must be number''
      else if field msg ''speed'' \<noteq> None \<and> not_number (field msg ''speed'')
        then Some ''speed must be number''
      else if field msg ''heading'' \<noteq> None \<and> not_number (field msg ''heading'')
        then Some ''heading must be number''
      else None)"

subsection \<open>Rate limiter\<close>

text \<open>
  \<^verbatim>\<open>Date.now()\<close> is read in \<^verbatim>\<open>initRateLimiter\<close> and again in
  \<^verbatim>\<open>consumeRateToken\<close>; the two readings are the arguments \<open>t0\<close> and \<open>now\<close>.
\<close>

definition initRateLimiter :: "int \<Rightarrow> meta_t \<Rightarrow> meta_t" where
  "initRateLimiter t0 m =
     (case rate m of
        None \<Rightarrow> m\<lparr>rate := Some \<lparr>tokens = TELEMETRY_LIMIT_PER_SEC, last_ms = t0\<rparr>\<rparr>
      | Some b \<Rightarrow> m)"

definition consumeRateToken :: "int \<Rightarrow> int \<Rightarrow> meta_t \<Rightarrow> bool \<times> meta_t" where
  "consumeRateToken t0 now m =
     (let m1 = initRateLimiter t0 m
      in case rate m1 of
           None \<Rightarrow> (False, m1)
         | Some b \<Rightarrow>
             let elapsed = js_sub (of_int now) (of_int (last_ms b));
                 topped = min TELEMETRY_LIMIT_PER_SEC
                            (js_add (tokens b)
                               (js_mul (js_div elapsed 1000) TELEMETRY_LIMIT_PER_SEC))
             in if topped < 1
                then (False, m1\<lparr>rate := Some \<lparr>tokens = topped, last_ms = now\<rparr>\<rparr>)
                else (True, m1\<lparr>rate := Some \<lparr>tokens = js_sub topped 1, last_ms = now\<rparr>\<rparr>))"

subsection \<open>Connection handler\<close>

definition error_frame :: "string \<Rightarrow> json" where
  "error_frame e = JObj [(''type'', JStr ''error''), (''error'', JStr e)]"

text \<open>The role and the deviceId of a message that \<open>validateHello\<close> accepted.\<close>

definition msg_role :: "json \<Rightarrow> role option" where
  "msg_role msg =
     (if field msg ''role'' = Some (JStr ''driver'') then Some Driver
      else if field msg ''role'' = Some (JStr ''viewer'') then Some Viewer
      else None)"

definition msg_deviceId :: "json \<Rightarrow> string option" where
  "msg_deviceId msg = (case field msg ''deviceId'' of Some (JStr d) \<Rightarrow> Some d | _ \<Rightarrow> None)"

text \<open>
  The Device Memory merge of the route, written twice in server.js (hello, lines
  147 to 152; telemetry, lines 205 to 210) with the same text:
  \<^verbatim>\<open>if (r || dir) routeMeta.set(d, { routeId: r || routeMeta.get(d)?.routeId,
                                       direction: dir || routeMeta.get(d)?.direction })\<close>.
\<close>

definition merge_route :: "string \<Rightarrow> string \<Rightarrow> string \<Rightarrow> (string \<rightharpoonup> route_meta) \<Rightarrow> (string \<rightharpoonup> route_meta)" where
  "merge_route d r dir rm =
     (if r \<noteq> [] \<or> dir \<noteq> []
      then rm(d \<mapsto> \<lparr>routeId = (if r \<noteq> [] then Some r
                               else (case rm d of None \<Rightarrow> None | Some m \<Rightarrow> routeId m)),
                    direction = (if dir \<noteq> [] then Some dir
                                 else (case rm d of None \<Rightarrow> None | Some m \<Rightarrow> direction m))\<rparr>)
      else rm)"

text \<open>\<^verbatim>\<open>if (n) names.set(d, n)\<close>\<close>

definition merge_name :: "string \<Rightarrow> string \<Rightarrow> (string \<rightharpoonup> string) \<Rightarrow> (string \<rightharpoonup> string)" where
  "merge_name d n nm = (if n \<noteq> [] then nm(d \<mapsto> n) else nm)"

text \<open>\<^verbatim>\<open>if (v) obj.k = v\<close> for a string or undefined \<open>v\<close>: the member is set when \<open>v\<close>
  is a string that is not empty.\<close>

fun truthy_member :: "string \<Rightarrow> string option \<Rightarrow> (string \<times> json) list" where
  "truthy_member k (Some v) = (if v \<noteq> [] then [(k, JStr v)] else [])"
| "truthy_member k None = []"

text \<open>\<^verbatim>\<open>if (msg.k !== undefined) obj.k = msg.k\<close>\<close>

fun defined_member :: "string \<Rightarrow> json option \<Rightarrow> (string \<times> json) list" where
  "defined_member k (Some v) = [(k, v)]"
| "defined_member k None = []"

text \<open>The \<^verbatim>\<open>hello-ack\<close> frame (lines 160 to 163): \<open>m\<close> is \<^verbatim>\<open>routeMeta.get(msg.deviceId)\<close>
  after the merge.\<close>

definition helloAck :: "role \<Rightarrow> string \<Rightarrow> string \<Rightarrow> route_meta option \<Rightarrow> json" where
  "helloAck r d announcedName m =
     JObj ([(''type'', JStr ''hello-ack''), (''role'', JStr (role_name r)), (''deviceId'', JStr d)]
           @ truthy_member ''displayName'' (Some announcedName)
           @ truthy_member ''routeId'' (case m of None \<Rightarrow> None | Some x \<Rightarrow> routeId x)
           @ truthy_member ''direction'' (case m of None \<Rightarrow> None | Some x \<Rightarrow> direction x))"

text \<open>The hello branch of the message handler (lines 134 to 166). A message that
  \<open>validateHello\<close> accepts has a role and a deviceId, so the last case is never taken.\<close>

definition on_hello :: "nat \<Rightarrow> json \<Rightarrow> state \<Rightarrow> state \<times> effect list" where
  "on_hello ws msg s =
     (case validateHello msg of
        Some e \<Rightarrow> (s, sendJson s ws (error_frame e))
      | None \<Rightarrow>
         (case (msg_deviceId msg, msg_role msg) of
            (Some d, Some r) \<Rightarrow>
              let (s1, out1) = assignSocketToRoom ws d r s;
                  announcedName = trimmed_field msg ''displayName'';
                  s2 = s1\<lparr>names := merge_name d announcedName (names s1)\<rparr>;
                  announcedRoute = trimmed_field msg ''routeId'';
                  announcedDirection = trimmed_field msg ''direction'';
                  s3 = s2\<lparr>routeMeta := merge_route d announcedRoute announcedDirection (routeMeta s2)\<rparr>
              in (s3, out1 @ sendJson s3 ws (helloAck r d announcedName (routeMeta s3 d)))
          | _ \<Rightarrow> (s, [])))"

text \<open>The payload the telemetry branch builds (lines 186 to 215): the members copied
  from the message, then the name and the route, each from the message when it gives
  one and from the Device Memory otherwise.\<close>

definition telemetry_payload :: "json \<Rightarrow> string \<Rightarrow> (string \<rightharpoonup> string) \<Rightarrow> (string \<rightharpoonup> route_meta) \<Rightarrow> json" where
  "telemetry_payload msg d nm rm =
     (let incomingName = trimmed_field msg ''displayName'';
          incomingRoute = trimmed_field msg ''routeId'';
          incomingDirection = trimmed_field msg ''direction''
      in JObj ([(''type'', JStr ''telemetry''), (''deviceId'', JStr d)]
           @ defined_member ''lat'' (field msg ''lat'')
           @ defined_member ''lng'' (field msg ''lng'')
           @ defined_member ''ts'' (field msg ''ts'')
           @ defined_member ''speed'' (field msg ''speed'')
           @ defined_member ''heading'' (field msg ''heading'')
           @ (if incomingName \<noteq> [] then [(''displayName'', JStr incomingName)]
              else truthy_member ''displayName'' (nm d))
           @ (if incomingRoute \<noteq> [] then [(''routeId'', JStr incomingRoute)]
              else truthy_member ''routeId'' (case rm d of None \<Rightarrow> None | Some x \<Rightarrow> routeId x))
           @ (if incomingDirection \<noteq> [] then [(''direction'', JStr incomingDirection)]
              else truthy_member ''direction'' (case rm d of None \<Rightarrow> None | Some x \<Rightarrow> direction x))))"

text \<open>The telemetry branch of the message handler (lines 168 to 229). A message that
  \<open>validateTelemetry\<close> accepts has a deviceId, so the case \<open>None\<close> is never taken.\<close>

definition on_telemetry :: "nat \<Rightarrow> json \<Rightarrow> int \<Rightarrow> int \<Rightarrow> state \<Rightarrow> state \<times> effect list" where
  "on_telemetry ws msg t0 now s =
     (if role (meta s ws) \<noteq> Some Driver
        then (s, sendJson s ws (error_frame ''Only drivers may send telemetry''))
      else (case validateTelemetry msg of
        Some e \<Rightarrow> (s, sendJson s ws (error_frame e))
      | None \<Rightarrow>
          if msg_deviceId msg \<noteq> deviceId (meta s ws)
            then (s, sendJson s ws (error_frame ''Driver must send telemetry for subscribed deviceId''))
          else (case msg_deviceId msg of
            None \<Rightarrow> (s, [])
          | Some d \<Rightarrow>
              let (ok, m') = consumeRateToken t0 now (meta s ws);
                  s1 = s\<lparr>meta := (meta s)(ws := m')\<rparr>
              in if \<not> ok then (s1, [])
                 else
                   let s2 = s1\<lparr>names := merge_name d (trimmed_field msg ''displayName'') (names s1)\<rparr>;
                       s3 = s2\<lparr>routeMeta := merge_route d (trimmed_field msg ''routeId'')
                                               (trimmed_field msg ''direction'') (routeMeta s2)\<rparr>;
                       payload = telemetry_payload msg d (names s3) (routeMeta s3);
                       s4 = s3\<lparr>latestTelemetry := (latestTelemetry s3)(d \<mapsto> payload)\<rparr>;
                       (rm, s5) = ensureRoom d s4
                   in (s5, concat (map (\<lambda>viewer. sendJson s5 viewer payload) (viewers rm))))))"

text \<open>The \<^verbatim>\<open>message\<close> handler of a socket; \<open>raw\<close> is the parsed frame, \<open>None\<close> when
  \<^verbatim>\<open>JSON.parse\<close> throws.\<close>

definition on_message :: "nat \<Rightarrow> json option \<Rightarrow> int \<Rightarrow> int \<Rightarrow> state \<Rightarrow> state \<times> effect list" where
  "on_message ws raw t0 now s =
     (case raw of
        None \<Rightarrow> (s, sendJson s ws (error_frame ''Invalid JSON''))
      | Some msg \<Rightarrow>
          if \<not> is_object msg then (s, sendJson s ws (error_frame ''Payload must be object''))
          else if field msg ''type'' = Some (JStr ''hello'') then on_hello ws msg s
          else if field msg ''type'' = Some (JStr ''telemetry'') then on_telemetry ws msg t0 now s
          else (s, sendJson s ws (error_frame ''Unsupported message type'')))"

subsection \<open>Events of the server\<close>

text \<open>
  The handlers the server registers: \<^verbatim>\<open>connection\<close> on the server, and
  \<^verbatim>\<open>message\<close>, \<^verbatim>\<open>close\<close> and \<^verbatim>\<open>error\<close> on each socket. A socket delivers
  messages from its connection until its \<^verbatim>\<open>close\<close> event, also while it is
  \<^verbatim>\<open>CLOSING\<close>. The \<^verbatim>\<open>ws\<close> library leaves the \<^verbatim>\<open>OPEN\<close> state before it emits
  \<^verbatim>\<open>error\<close>, and a socket is \<^verbatim>\<open>CLOSED\<close> when it emits \<^verbatim>\<open>close\<close>. The two clock
  readings of a message are those of the rate limiter.
\<close>

datatype event =
    Connection nat
  | Message nat "json option" int int
  | SockClose nat
  | SockError nat

fun step :: "event \<Rightarrow> state \<Rightarrow> state \<times> effect list" where
  "step (Connection ws) s =
     (if readyState s ws = CONNECTING
      then (s\<lparr>meta := (meta s)(ws := meta0), readyState := (readyState s)(ws := OPEN)\<rparr>, [])
      else (s, []))"
| "step (Message ws raw t0 now) s =
     (if readyState s ws = OPEN \<or> readyState s ws = CLOSING
      then on_message ws raw t0 now s
      else (s, []))"
| "step (SockClose ws) s =
     (if readyState s ws = OPEN \<or> readyState s ws = CLOSING
      then ((removeSocketFromRoom ws s)\<lparr>readyState := (readyState s)(ws := CLOSED)\<rparr>, [])
      else (s, []))"
| "step (SockError ws) s =
     (if readyState s ws = OPEN \<or> readyState s ws = CLOSING
      then (removeSocketFromRoom ws (close_socket ws s), [])
      else (s, []))"

text \<open>The state after a sequence of events, and everything the server did on the way.\<close>

fun run :: "event list \<Rightarrow> state \<Rightarrow> state \<times> effect list" where
  "run [] s = (s, [])"
| "run (e # es) s = (let (s1, out1) = step e s; (s2, out2) = run es s1 in (s2, out1 @ out2))"

definition reach :: "event list \<Rightarrow> state" where
  "reach es = fst (run es init)"

section \<open>The earlier relay of index.js\<close>

text \<open>
  index.js keeps three maps (\<^verbatim>\<open>drivers\<close>, \<^verbatim>\<open>viewers\<close>, \<^verbatim>\<open>latestTelemetry\<close>) and
  on each socket \<^verbatim>\<open>meta.role\<close> and \<^verbatim>\<open>meta.deviceId\<close>, both undefined until the
  first accepted hello. Its names carry the prefix \<open>ix\<close> here. Only its message
  handler is modelled.
\<close>

record ix_state =
  ix_role :: "nat \<Rightarrow> role option"
  ix_deviceId :: "nat \<Rightarrow> string option"
  ix_readyState :: "nat \<Rightarrow> ready_state"
  ix_drivers :: "string \<rightharpoonup> nat"
  ix_viewers :: "string \<rightharpoonup> nat list"
  ix_latestTelemetry :: "string \<rightharpoonup> json"

text \<open>\<^verbatim>\<open>msg.type\<close> on \<^verbatim>\<open>null\<close> throws; nothing catches it in the handler.\<close>

datatype js_error = TypeError

definition ix_sendJson :: "ix_state \<Rightarrow> nat \<Rightarrow> json \<Rightarrow> effect list" where
  "ix_sendJson s ws payload = (if ix_readyState s ws = OPEN then [Send ws payload] else [])"

definition ix_close_socket :: "nat \<Rightarrow> ix_state \<Rightarrow> ix_state" where
  "ix_close_socket ws s =
     s\<lparr>ix_readyState := (ix_readyState s)(ws := (if ix_readyState s ws = OPEN then CLOSING
                                                    else ix_readyState s ws))\<rparr>"

definition ix_validateHello :: "json \<Rightarrow> string option" where
  "ix_validateHello msg =
     (if \<not> is_object msg then Some ''Malformed message''
      else if field msg ''type'' \<noteq> Some (JStr ''hello'') then Some ''Unexpected message type''
      else if field msg ''role'' \<noteq> Some (JStr ''driver'') \<and> field msg ''role'' \<noteq> Some (JStr ''viewer'')
        then Some ''Unknown role''
      else (case field msg ''deviceId'' of
              Some (JStr d) \<Rightarrow> if trim d = [] then Some ''Missing deviceId'' else None
            | _ \<Rightarrow> Some ''Missing deviceId''))"

definition ix_validateTelemetry :: "json \<Rightarrow> string option \<Rightarrow> string option" where
  "ix_validateTelemetry msg expectedDeviceId =
     (if \<not> is_object msg then Some ''Malformed message''
      else if field msg ''type'' \<noteq> Some (JStr ''telemetry'') then Some ''Unexpected message type''
      else if field msg ''deviceId'' \<noteq> map_option JStr expectedDeviceId then Some ''Device mismatch''
      else if not_number (field msg ''lat'') then Some ''lat must be number''
      else if not_number (field msg ''lng'') then Some ''lng must be number''
      else if not_number (field msg ''ts'') then Some ''ts must be number''
      else if field msg ''speed'' \<noteq> None \<and> not_number (field msg ''speed'')
        then Some ''speed must be number''
      else if field msg ''heading'' \<noteq> None \<and> not_number (field msg ''heading'')
        then Some ''heading must be number''
      else None)"

definition info_frame :: "string \<Rightarrow> json" where
  "info_frame m = JObj [(''type'', JStr ''info''), (''message'', JStr m)]"

definition ix_helloAck :: "role \<Rightarrow> string \<Rightarrow> json" where
  "ix_helloAck r d =
     JObj [(''type'', JStr ''hello-ack''), (''role'', JStr (role_name r)), (''deviceId'', JStr d)]"

text \<open>The first message of a socket (lines 95 to 122).\<close>

definition ix_on_first :: "nat \<Rightarrow> json \<Rightarrow> ix_state \<Rightarrow> ix_state \<times> effect list" where
  "ix_on_first ws msg s =
     (case ix_validateHello msg of
        Some e \<Rightarrow> (ix_close_socket ws s,
                   ix_sendJson s ws (error_frame e) @ [Close ws 1002 ''protocol error''])
      | None \<Rightarrow>
         (case (msg_deviceId msg, msg_role msg) of
            (Some d, Some r) \<Rightarrow>
              let s1 = s\<lparr>ix_role := (ix_role s)(ws := Some r),
                         ix_deviceId := (ix_deviceId s)(ws := Some d)\<rparr>
              in (case r of
                    Driver \<Rightarrow>
                      (case ix_drivers s1 d of
                         Some previous \<Rightarrow>
                           if previous \<noteq> ws
                           then let s2 = (ix_close_socket previous s1)
                                           \<lparr>ix_drivers := (ix_drivers s1)(d \<mapsto> ws)\<rparr>
                                in (s2, ix_sendJson s1 previous (info_frame ''Another driver connected'')
                                        @ [Close previous 1001 ''driver replaced'']
                                        @ ix_sendJson s2 ws (ix_helloAck r d))
                           else (s1\<lparr>ix_drivers := (ix_drivers s1)(d \<mapsto> ws)\<rparr>,
                                 ix_sendJson s1 ws (ix_helloAck r d))
                       | None \<Rightarrow> (s1\<lparr>ix_drivers := (ix_drivers s1)(d \<mapsto> ws)\<rparr>,
                                  ix_sendJson s1 ws (ix_helloAck r d)))
                  | Viewer \<Rightarrow>
                      let grp = (case ix_viewers s1 d of None \<Rightarrow> [] | Some g \<Rightarrow> g);
                          s2 = s1\<lparr>ix_viewers := (ix_viewers s1)(d \<mapsto> set_add ws grp)\<rparr>
                      in (s2, (case ix_latestTelemetry s2 d of
                                 Some snapshot \<Rightarrow> ix_sendJson s2 ws snapshot
                               | None \<Rightarrow> [])
                              @ ix_sendJson s2 ws (ix_helloAck r d)))
          | _ \<Rightarrow> (s, [])))"

text \<open>A telemetry message of an identified socket (lines 124 to 149).\<close>

definition ix_on_telemetry :: "nat \<Rightarrow> json \<Rightarrow> ix_state \<Rightarrow> ix_state \<times> effect list" where
  "ix_on_telemetry ws msg s =
     (if ix_role s ws \<noteq> Some Driver
        then (s, ix_sendJson s ws (error_frame ''Only drivers may send telemetry''))
      else (case ix_validateTelemetry msg (ix_deviceId s ws) of
        Some e \<Rightarrow> (s, ix_sendJson s ws (error_frame e))
      | None \<Rightarrow>
         (case ix_deviceId s ws of
            None \<Rightarrow> (s, [])
          | Some d \<Rightarrow>
              let payload = JObj ([(''type'', JStr ''telemetry''), (''deviceId'', JStr d)]
                                  @ defined_member ''lat'' (field msg ''lat'')
                                  @ defined_member ''lng'' (field msg ''lng'')
                                  @ defined_member ''ts'' (field msg ''ts'')
                                  @ defined_member ''speed'' (field msg ''speed'')
                                  @ defined_member ''heading'' (field msg ''heading''));
                  s1 = s\<lparr>ix_latestTelemetry := (ix_latestTelemetry s)(d \<mapsto> payload)\<rparr>
              in (s1, (case ix_viewers s1 d of
                         None \<Rightarrow> []
                       | Some targets \<Rightarrow> concat (map (\<lambda>v. ix_sendJson s1 v payload) targets))))))"

text \<open>The \<^verbatim>\<open>message\<close> handler of index.js (lines 84 to 152). The result is the
  exception the handler throws, or the new state and what was done to the sockets.\<close>

definition ix_on_message :: "nat \<Rightarrow> json option \<Rightarrow> ix_state \<Rightarrow> js_error + ix_state \<times> effect list" where
  "ix_on_message ws raw s =
     (case raw of
        None \<Rightarrow> Inr (s, ix_sendJson s ws (error_frame ''Invalid JSON''))
      | Some msg \<Rightarrow>
          if ix_role s ws = None then Inr (ix_on_first ws msg s)
          else if msg = JNull then Inl TypeError
          else if field msg ''type'' = Some (JStr ''telemetry'') then Inr (ix_on_telemetry ws msg s)
          else Inr (s, ix_sendJson s ws (error_frame ''Unsupported message'')))"

section \<open>Properties of the room registry\<close>

text \<open>
  A socket is live from its \<^verbatim>\<open>connection\<close> event to its \<^verbatim>\<open>close\<close> event: the server
  takes its messages, also after the server itself has called \<^verbatim>\<open>close\<close> on it.
\<close>

definition live :: "state \<Rightarrow> nat \<Rightarrow> bool" where
  "live s c = (readyState s c = OPEN \<or> readyState s c = CLOSING)"

text \<open>
  A socket holds the driver role of a device when it is live and its \<^verbatim>\<open>meta\<close> says
  driver of that device: the telemetry branch asks \<^verbatim>\<open>ws.meta.role\<close> and
  \<^verbatim>\<open>ws.meta.deviceId\<close> and nothing else. It drives a device when it is in the driver
  slot of the device's room.
\<close>

definition holds_driver :: "state \<Rightarrow> nat \<Rightarrow> string \<Rightarrow> bool" where
  "holds_driver s c d =
     (live s c \<and> role (meta s c) = Some Driver \<and> deviceId (meta s c) = Some d)"

definition drives :: "state \<Rightarrow> nat \<Rightarrow> string \<Rightarrow> bool" where
  "drives s c d = (case rooms s d of None \<Rightarrow> False | Some r \<Rightarrow> driver r = Some c)"

text \<open>The same for the sockets that are open, and the invariant that every open driver
  is in the driver slot of its room.\<close>

definition open_driver :: "state \<Rightarrow> nat \<Rightarrow> string \<Rightarrow> bool" where
  "open_driver s c d =
     (readyState s c = OPEN \<and> role (meta s c) = Some Driver \<and> deviceId (meta s c) = Some d)"

definition driver_inv :: "state \<Rightarrow> bool" where
  "driver_inv s = (\<forall>c d. open_driver s c d \<longrightarrow> drives s c d)"

text \<open>
  A socket occupies a room when it is the driver or one of the viewers of the room.
  The invariants of the registry: every occupant of a room is live and its \<^verbatim>\<open>meta\<close>
  names the room and the place it has in it; every room has a live socket bound to
  its device; a snapshot is stored only for a device that has a room.
\<close>

definition occupies :: "state \<Rightarrow> nat \<Rightarrow> string \<Rightarrow> bool" where
  "occupies s c d =
     (case rooms s d of None \<Rightarrow> False | Some r \<Rightarrow> driver r = Some c \<or> c \<in> set (viewers r))"

definition occ_inv :: "state \<Rightarrow> bool" where
  "occ_inv s =
     (\<forall>d r c. rooms s d = Some r \<longrightarrow>
        d \<noteq> []
        \<and> (driver r = Some c \<longrightarrow>
             live s c \<and> role (meta s c) = Some Driver \<and> deviceId (meta s c) = Some d)
        \<and> (c \<in> set (viewers r) \<longrightarrow>
             live s c \<and> role (meta s c) = Some Viewer \<and> deviceId (meta s c) = Some d))"

definition room_inv :: "state \<Rightarrow> bool" where
  "room_inv s = (\<forall>d. rooms s d \<noteq> None \<longrightarrow> (\<exists>c. live s c \<and> deviceId (meta s c) = Some d))"

definition snap_inv :: "state \<Rightarrow> bool" where
  "snap_inv s = (\<forall>d. latestTelemetry s d \<noteq> None \<longrightarrow> rooms s d \<noteq> None)"

definition registry_inv :: "state \<Rightarrow> bool" where
  "registry_inv s = (occ_inv s \<and> room_inv s \<and> snap_inv s)"

text \<open>The socket an effect is done to.\<close>

fun target :: "effect \<Rightarrow> nat" where
  "target (Send ws payload) = ws"
| "target (Close ws code reason) = ws"

fun is_close :: "effect \<Rightarrow> bool" where
  "is_close (Close ws code reason) = True"
| "is_close (Send ws payload) = False"

text \<open>\<^verbatim>\<open>routeMeta.get(d)?.routeId\<close> and \<^verbatim>\<open>routeMeta.get(d)?.direction\<close>: what the
  Device Memory remembers of a device's route.\<close>

definition route_of :: "(string \<rightharpoonup> route_meta) \<Rightarrow> string \<Rightarrow> string option" where
  "route_of rm d = (case rm d of None \<Rightarrow> None | Some x \<Rightarrow> routeId x)"

definition direction_of :: "(string \<rightharpoonup> route_meta) \<Rightarrow> string \<Rightarrow> string option" where
  "direction_of rm d = (case rm d of None \<Rightarrow> None | Some x \<Rightarrow> direction x)"

text \<open>A remembered value is a string that is not empty and that \<open>trim\<close> leaves as it
  is.\<close>

fun trimmed_value :: "string option \<Rightarrow> bool" where
  "trimmed_value None = True"
| "trimmed_value (Some v) = (v \<noteq> [] \<and> trim v = v)"

definition memory_ok :: "state \<Rightarrow> bool" where
  "memory_ok s = (\<forall>d. trimmed_value (names s d) \<and> trimmed_value (route_of (routeMeta s) d)
                      \<and> trimmed_value (direction_of (routeMeta s) d))"

section \<open>Frames and traces of the examples\<close>

text \<open>A hello with the required members only, and one with a name and a route.\<close>

definition hello_msg :: "string \<Rightarrow> string \<Rightarrow> json" where
  "hello_msg r d = JObj [(''type'', JStr ''hello''), (''role'', JStr r), (''deviceId'', JStr d)]"

definition hello_full :: "string \<Rightarrow> string \<Rightarrow> string \<Rightarrow> string \<Rightarrow> string \<Rightarrow> json" where
  "hello_full r d n route dir =
     JObj [(''type'', JStr ''hello''), (''role'', JStr r), (''deviceId'', JStr d),
           (''displayName'', JStr n), (''routeId'', JStr route), (''direction'', JStr dir)]"

text \<open>A telemetry message with the required members only.\<close>

definition telemetry_msg :: "string \<Rightarrow> json" where
  "telemetry_msg d =
     JObj [(''type'', JStr ''telemetry''), (''deviceId'', JStr d), (''lat'', JNum (593 / 20)),
           (''lng'', JNum (- (1647 / 20))), (''ts'', JNum 1000)]"

text \<open>The payload the relay builds from \<open>telemetry_msg\<close> when the Device Memory holds
  nothing for the device.\<close>

definition telemetry_out :: "string \<Rightarrow> json" where
  "telemetry_out d =
     JObj [(''type'', JStr ''telemetry''), (''deviceId'', JStr d), (''lat'', JNum (593 / 20)),
           (''lng'', JNum (- (1647 / 20))), (''ts'', JNum 1000)]"

text \<open>A driver on socket 0 for \<open>bus-1\<close>.\<close>

definition one_driver :: "event list" where
  "one_driver = [Connection 0, Message 0 (Some (hello_msg ''driver'' ''bus-1'')) 0 0]"

text \<open>A telemetry message of socket 0 at the clock reading 10.\<close>

definition telemetry_event :: event where
  "telemetry_event = Message 0 (Some (telemetry_msg ''bus-1'')) 10 10"

text \<open>The driver has sent one telemetry message.\<close>

definition driver_sent :: "event list" where
  "driver_sent = one_driver @ [telemetry_event]"

text \<open>The driver has sent one telemetry message and a second socket is connected.\<close>

definition sent_and_second :: "event list" where
  "sent_and_second = driver_sent @ [Connection 1]"

text \<open>After that a viewer on socket 2 has subscribed to \<open>bus-1\<close> and has left again: the
  driver on socket 0 is alone in the room.\<close>

definition viewer_left :: "event list" where
  "viewer_left =
     sent_and_second @ [Connection 2, Message 2 (Some (hello_msg ''viewer'' ''bus-1'')) 20 20,
                        SockClose 2]"

text \<open>A second socket is connected and has sent nothing yet.\<close>

definition two_sockets :: "event list" where
  "two_sockets = one_driver @ [Connection 1]"

text \<open>A viewer on socket 2 has subscribed to \<open>bus-1\<close>, and then a second driver on
  socket 1 has said hello for \<open>bus-1\<close>: the server has called \<^verbatim>\<open>close\<close> on socket 0,
  whose \<^verbatim>\<open>close\<close> event has not come yet.\<close>

definition replaced :: "event list" where
  "replaced =
     one_driver @ [Connection 2, Message 2 (Some (hello_msg ''viewer'' ''bus-1'')) 0 0,
                   Connection 1, Message 1 (Some (hello_msg ''driver'' ''bus-1'')) 0 0]"

text \<open>A telemetry message for another device than \<open>bus-1\<close>.\<close>

definition other_telemetry :: json where
  "other_telemetry = telemetry_msg ''bus-2''"

text \<open>A hello whose displayName and routeId are white space only.\<close>

definition hello_blank :: json where
  "hello_blank = hello_full ''driver'' ''bus-1'' ''   '' '' '' ''inbound''"

text \<open>A hello with a role that is neither driver nor viewer.\<close>

definition bad_hello :: json where
  "bad_hello = JObj [(''type'', JStr ''hello''), (''role'', JStr ''admin''), (''deviceId'', JStr ''bus-1'')]"

text \<open>A driver announced the name "Bus A", the route "12" and the direction "outbound"
  for \<open>bus-1\<close> and left; a second socket is connected.\<close>

definition named_session_over :: "event list" where
  "named_session_over =
     [Connection 0, Message 0 (Some (hello_full ''driver'' ''bus-1'' ''Bus A'' ''12'' ''outbound'')) 0 0,
      SockClose 0, Connection 1]"

text \<open>A viewer on socket 1 subscribed to \<open>bus-1\<close>, the driver sent one telemetry message
  and left: the viewer is alone in the room and the snapshot is stored.\<close>

definition viewer_alone :: "event list" where
  "viewer_alone =
     one_driver @ [Connection 1, Message 1 (Some (hello_msg ''viewer'' ''bus-1'')) 0 0,
                   telemetry_event, SockClose 0]"

text \<open>The driver has sent five telemetry messages within one millisecond.\<close>

definition burst :: "event list" where
  "burst = one_driver @ [telemetry_event, telemetry_event, telemetry_event, telemetry_event,
                         telemetry_event]"

text \<open>16 milliseconds after the five messages the driver sends a sixth.\<close>

definition slow_refill :: "event list" where
  "slow_refill = burst @ [Message 0 (Some (telemetry_msg ''bus-1'')) 26 26]"

text \<open>index.js before any message: every socket is connected and open and no socket
  has said hello.\<close>

definition ix_connected :: ix_state where
  "ix_connected = \<lparr>ix_role = (\<lambda>ws. None), ix_deviceId = (\<lambda>ws. None),
     ix_readyState = (\<lambda>ws. OPEN), ix_drivers = Map.empty, ix_viewers = Map.empty,
     ix_latestTelemetry = Map.empty\<rparr>"

text \<open>index.js after socket 0 said hello as the driver of \<open>bus-1\<close>.\<close>

definition ix_one_driver :: ix_state where
  "ix_one_driver = fst (ix_on_first 0 (hello_msg ''driver'' ''bus-1'') ix_connected)"

section \<open>The registry operations, field by field\<close>

text \<open>What \<open>removeSocketFromRoom\<close>, \<open>ensureRoom\<close> and \<open>assignSocketToRoom\<close> do to each
  field of the state, and to the driver slot of each room.\<close>

lemma remove_keeps [simp]:
  "meta (removeSocketFromRoom ws s) = meta s"
  "readyState (removeSocketFromRoom ws s) = readyState s"
  "names (removeSocketFromRoom ws s) = names s"
  "routeMeta (removeSocketFromRoom ws s) = routeMeta s"
  by (simp_all add: removeSocketFromRoom_def Let_def split: option.splits)

lemma remove_drives_other:
  "c \<noteq> ws \<Longrightarrow> drives (removeSocketFromRoom ws s) c d = drives s c d"
  by (auto simp: removeSocketFromRoom_def drives_def Let_def split: option.splits)

lemma ensure_keeps [simp]:
  "meta (snd (ensureRoom d s)) = meta s"
  "readyState (snd (ensureRoom d s)) = readyState s"
  "names (snd (ensureRoom d s)) = names s"
  "routeMeta (snd (ensureRoom d s)) = routeMeta s"
  "latestTelemetry (snd (ensureRoom d s)) = latestTelemetry s"
  by (simp_all add: ensureRoom_def split: option.splits)

lemma ensure_room: "rooms (snd (ensureRoom d s)) d = Some (fst (ensureRoom d s))"
  by (simp add: ensureRoom_def split: option.splits)

lemma ensure_other: "d' \<noteq> d \<Longrightarrow> rooms (snd (ensureRoom d s)) d' = rooms s d'"
  by (simp add: ensureRoom_def split: option.splits)

lemma ensure_drives: "drives (snd (ensureRoom d s)) c d' = drives s c d'"
  by (simp add: ensureRoom_def drives_def split: option.splits)

lemma ensure_driver: "(driver (fst (ensureRoom d s)) = Some c) = drives s c d"
  by (simp add: ensureRoom_def drives_def split: option.splits)

lemma close_keeps [simp]:
  "meta (close_socket p s) = meta s"
  "rooms (close_socket p s) = rooms s"
  "latestTelemetry (close_socket p s) = latestTelemetry s"
  "names (close_socket p s) = names s"
  "routeMeta (close_socket p s) = routeMeta s"
  by (simp_all add: close_socket_def)

lemma assign_driver_drives:
  "drives (fst (assignSocketToRoom ws d Driver s)) c d' =
     (if d' = d then c = ws else drives (removeSocketFromRoom ws s) c d')"
  by (auto simp: assignSocketToRoom_def Let_def case_prod_beta drives_def ensure_other
      split: option.splits)

lemma assign_viewer_rooms:
  "rooms (fst (assignSocketToRoom ws d Viewer s)) =
     (rooms (snd (ensureRoom d (removeSocketFromRoom ws s))))
       (d \<mapsto> (fst (ensureRoom d (removeSocketFromRoom ws s)))
          \<lparr>viewers := set_add ws (viewers (fst (ensureRoom d (removeSocketFromRoom ws s))))\<rparr>)"
  by (simp add: assignSocketToRoom_def Let_def case_prod_beta split: option.splits)

lemma assign_viewer_drives:
  "drives (fst (assignSocketToRoom ws d Viewer s)) c d' = drives (removeSocketFromRoom ws s) c d'"
proof (cases "d' = d")
  case True
  then show ?thesis
    using ensure_driver [of d "removeSocketFromRoom ws s" c]
    by (simp add: drives_def assign_viewer_rooms)
next
  case False
  then show ?thesis
    using ensure_drives [of d "removeSocketFromRoom ws s" c d']
    by (simp add: drives_def assign_viewer_rooms)
qed

lemma assign_meta:
  "meta (fst (assignSocketToRoom ws d r s)) =
     (meta s)(ws := (meta s ws)\<lparr>role := Some r, deviceId := Some d\<rparr>)"
  by (simp add: assignSocketToRoom_def Let_def case_prod_beta split: option.splits role.splits)

lemma assign_viewer_ready:
  "readyState (fst (assignSocketToRoom ws d Viewer s)) = readyState s"
  by (simp add: assignSocketToRoom_def Let_def case_prod_beta split: option.splits)

lemma drives_unique: "drives s a d \<Longrightarrow> drives s b d \<Longrightarrow> a = b"
  by (auto simp: drives_def split: option.splits)

lemma assign_driver_ready:
  "readyState (fst (assignSocketToRoom ws d Driver s)) c =
     (if c \<noteq> ws \<and> drives (removeSocketFromRoom ws s) c d \<and> readyState s c = OPEN
      then CLOSING else readyState s c)"
  using ensure_driver [of d "removeSocketFromRoom ws s"]
  by (auto simp: assignSocketToRoom_def Let_def case_prod_beta close_socket_def
      split: option.splits dest: drives_unique)

lemma assign_names [simp]:
  "names (fst (assignSocketToRoom ws d r s)) = names s"
  "routeMeta (fst (assignSocketToRoom ws d r s)) = routeMeta s"
  by (simp_all add: assignSocketToRoom_def Let_def case_prod_beta split: option.splits role.splits)

subsection \<open>Every open driver is in the driver slot of its room\<close>

text \<open>\<open>driver_inv\<close> is kept by the assign, by each handler and so by every event.\<close>

lemma assign_inv:
  assumes "driver_inv s"
  shows "driver_inv (fst (assignSocketToRoom ws d r s))"
proof (cases r)
  case Driver
  show ?thesis
    unfolding driver_inv_def
  proof (intro allI impI)
    fix c dd
    assume h: "open_driver (fst (assignSocketToRoom ws d r s)) c dd"
    show "drives (fst (assignSocketToRoom ws d r s)) c dd"
    proof (cases "c = ws")
      case True
      with h Driver show ?thesis
        by (simp add: open_driver_def assign_meta assign_driver_drives)
    next
      case False
      from h False Driver have old: "open_driver s c dd"
        by (auto simp: open_driver_def assign_meta assign_driver_ready split: if_splits)
      with assms have "drives s c dd" by (simp add: driver_inv_def)
      with False have d1: "drives (removeSocketFromRoom ws s) c dd"
        by (simp add: remove_drives_other)
      from h False Driver old have "\<not> drives (removeSocketFromRoom ws s) c d"
        by (auto simp: open_driver_def assign_driver_ready split: if_splits)
      with d1 have "dd \<noteq> d" by auto
      with d1 Driver show ?thesis by (simp add: assign_driver_drives)
    qed
  qed
next
  case Viewer
  show ?thesis
    unfolding driver_inv_def
  proof (intro allI impI)
    fix c dd
    assume h: "open_driver (fst (assignSocketToRoom ws d r s)) c dd"
    with Viewer have ne: "c \<noteq> ws"
      by (auto simp: open_driver_def assign_meta)
    with h Viewer have "open_driver s c dd"
      by (simp add: open_driver_def assign_meta assign_viewer_ready)
    with assms have "drives s c dd" by (simp add: driver_inv_def)
    with ne Viewer show "drives (fst (assignSocketToRoom ws d r s)) c dd"
      by (simp add: assign_viewer_drives remove_drives_other)
  qed
qed


lemma driver_inv_cong:
  "driver_inv s \<Longrightarrow> meta s' = meta s \<Longrightarrow> readyState s' = readyState s \<Longrightarrow>
   rooms s' = rooms s \<Longrightarrow> driver_inv s'"
  by (simp add: driver_inv_def open_driver_def drives_def)

lemma on_hello_core:
  "(meta (fst (on_hello ws msg s)) = meta s \<and> readyState (fst (on_hello ws msg s)) = readyState s
      \<and> rooms (fst (on_hello ws msg s)) = rooms s) \<or>
   (\<exists>d r. meta (fst (on_hello ws msg s)) = meta (fst (assignSocketToRoom ws d r s))
      \<and> readyState (fst (on_hello ws msg s)) = readyState (fst (assignSocketToRoom ws d r s))
      \<and> rooms (fst (on_hello ws msg s)) = rooms (fst (assignSocketToRoom ws d r s)))"
  by (auto simp: on_hello_def Let_def case_prod_beta split: option.splits)

lemma on_hello_inv:
  assumes "driver_inv s"
  shows "driver_inv (fst (on_hello ws msg s))"
  using on_hello_core [of ws msg s]
proof (elim disjE exE conjE)
  assume "meta (fst (on_hello ws msg s)) = meta s"
    "readyState (fst (on_hello ws msg s)) = readyState s"
    "rooms (fst (on_hello ws msg s)) = rooms s"
  with assms show ?thesis by (rule driver_inv_cong)
next
  fix d r
  assume "meta (fst (on_hello ws msg s)) = meta (fst (assignSocketToRoom ws d r s))"
    "readyState (fst (on_hello ws msg s)) = readyState (fst (assignSocketToRoom ws d r s))"
    "rooms (fst (on_hello ws msg s)) = rooms (fst (assignSocketToRoom ws d r s))"
  with assign_inv [OF assms, of ws d r] show ?thesis by (rule driver_inv_cong)
qed

lemma consume_keeps [simp]:
  "role (snd (consumeRateToken t0 now m)) = role m"
  "deviceId (snd (consumeRateToken t0 now m)) = deviceId m"
  by (simp_all add: consumeRateToken_def initRateLimiter_def Let_def split: option.splits)

lemma on_telemetry_keeps:
  "role (meta (fst (on_telemetry ws msg t0 now s)) c) = role (meta s c)"
  "deviceId (meta (fst (on_telemetry ws msg t0 now s)) c) = deviceId (meta s c)"
  "readyState (fst (on_telemetry ws msg t0 now s)) = readyState s"
  "drives (fst (on_telemetry ws msg t0 now s)) c d = drives s c d"
  by (simp_all add: on_telemetry_def Let_def case_prod_beta drives_def ensureRoom_def
      split: option.splits)

lemma on_telemetry_inv: "driver_inv s \<Longrightarrow> driver_inv (fst (on_telemetry ws msg t0 now s))"
  by (simp add: driver_inv_def open_driver_def on_telemetry_keeps)

lemma on_message_inv: "driver_inv s \<Longrightarrow> driver_inv (fst (on_message ws raw t0 now s))"
  by (simp add: on_message_def on_hello_inv on_telemetry_inv split: option.splits)

lemma remove_inv_closed:
  assumes "driver_inv s" "readyState s' = (readyState s)(ws := st)" "st \<noteq> OPEN"
    "meta s' = meta s" "rooms s' = rooms (removeSocketFromRoom ws s)"
  shows "driver_inv s'"
  unfolding driver_inv_def
proof (intro allI impI)
  fix c d
  assume h: "open_driver s' c d"
  with assms have ne: "c \<noteq> ws" by (auto simp: open_driver_def)
  with h assms have "open_driver s c d" by (simp add: open_driver_def)
  with assms have "drives s c d" by (simp add: driver_inv_def)
  with ne have "drives (removeSocketFromRoom ws s) c d" by (simp add: remove_drives_other)
  with assms show "drives s' c d" by (simp add: drives_def)
qed

lemma step_inv: "driver_inv s \<Longrightarrow> driver_inv (fst (step e s))"
proof (cases e)
  case (Connection ws)
  assume "driver_inv s"
  then show ?thesis using Connection
    by (auto simp: driver_inv_def open_driver_def drives_def meta0_def)
next
  case (Message ws raw t0 now)
  assume "driver_inv s"
  then show ?thesis using Message by (simp add: on_message_inv)
next
  case (SockClose ws)
  assume "driver_inv s"
  then show ?thesis using SockClose
    by (auto intro: remove_inv_closed [where ws = ws and st = CLOSED])
next
  case (SockError ws)
  assume a: "driver_inv s"
  show ?thesis
  proof (cases "readyState s ws = OPEN \<or> readyState s ws = CLOSING")
    case True
    have "driver_inv (removeSocketFromRoom ws (close_socket ws s))"
    proof (rule remove_inv_closed [where ws = ws and st = CLOSING and s = s])
      show "rooms (removeSocketFromRoom ws (close_socket ws s)) = rooms (removeSocketFromRoom ws s)"
        by (simp add: removeSocketFromRoom_def close_socket_def Let_def split: option.splits)
      show "readyState (removeSocketFromRoom ws (close_socket ws s)) = (readyState s)(ws := CLOSING)"
        using True by (auto simp: close_socket_def)
    qed (use a in simp_all)
    with True SockError show ?thesis by simp
  next
    case False
    with a SockError show ?thesis by simp
  qed
qed

subsection \<open>States the server reaches\<close>

lemma run_snoc: "fst (run (es @ [e]) s) = fst (step e (fst (run es s)))"
  by (induction es arbitrary: s) (simp_all add: case_prod_beta Let_def)

lemma reach_snoc: "reach (es @ [e]) = fst (step e (reach es))"
  by (simp add: reach_def run_snoc)

lemma reach_nil: "reach [] = init"
  by (simp add: reach_def)

lemma driver_inv_reach: "driver_inv (reach es)"
proof (induction es rule: rev_induct)
  case Nil
  show ?case by (simp add: reach_nil driver_inv_def open_driver_def init_def)
next
  case (snoc e es)
  then show ?case by (simp add: reach_snoc step_inv)
qed

subsection \<open>What the handlers do to the sockets\<close>

lemma assign_replaces:
  assumes "drives s p d" "p \<noteq> ws"
  shows "snd (assignSocketToRoom ws d Driver s) = [Close p 1001 ''driver replaced'']
         \<and> readyState (fst (assignSocketToRoom ws d Driver s)) p \<noteq> OPEN
         \<and> \<not> drives (fst (assignSocketToRoom ws d Driver s)) p d"
proof -
  from assms have d1: "drives (removeSocketFromRoom ws s) p d"
    by (simp add: remove_drives_other)
  then have dr: "driver (fst (ensureRoom d (removeSocketFromRoom ws s))) = Some p"
    by (simp add: ensure_driver)
  have "snd (assignSocketToRoom ws d Driver s) = [Close p 1001 ''driver replaced'']"
    using dr assms(2) by (simp add: assignSocketToRoom_def Let_def case_prod_beta)
  moreover have "readyState (fst (assignSocketToRoom ws d Driver s)) p \<noteq> OPEN"
    using d1 assms(2) by (simp add: assign_driver_ready)
  moreover have "\<not> drives (fst (assignSocketToRoom ws d Driver s)) p d"
    using assms(2) by (simp add: assign_driver_drives)
  ultimately show ?thesis by simp
qed

lemma assign_effects:
  "e \<in> set (snd (assignSocketToRoom ws d r s)) \<Longrightarrow>
     (\<exists>p. e = Close p 1001 ''driver replaced'' \<and> p \<noteq> ws \<and> r = Driver
          \<and> drives (removeSocketFromRoom ws s) p d)
     \<or> (\<exists>snap. e = Send ws snap \<and> r = Viewer)"
  using ensure_driver [of d "removeSocketFromRoom ws s"]
  by (cases r)
     (auto simp: assignSocketToRoom_def Let_def case_prod_beta sendJson_def
       split: option.splits if_splits)





lemma hello_type_object: "field msg ''type'' = Some v \<Longrightarrow> is_object msg"
  by (cases msg) simp_all


subsection \<open>An accepted hello\<close>

lemma validateHello_accepts:
  "validateHello msg = None \<Longrightarrow>
     is_object msg \<and> field msg ''type'' = Some (JStr ''hello'')
     \<and> (\<exists>d r. msg_deviceId msg = Some d \<and> msg_role msg = Some r \<and> trim d \<noteq> [])"
  by (auto simp: validateHello_def msg_deviceId_def msg_role_def
      split: if_splits option.splits json.splits)

lemma on_message_hello:
  "validateHello msg = None \<Longrightarrow> msg_deviceId msg = Some d \<Longrightarrow> msg_role msg = Some r \<Longrightarrow>
   on_message ws (Some msg) t0 now s =
     (let s1 = fst (assignSocketToRoom ws d r s);
          s3 = s1\<lparr>names := merge_name d (trimmed_field msg ''displayName'') (names s),
                  routeMeta := merge_route d (trimmed_field msg ''routeId'')
                                 (trimmed_field msg ''direction'') (routeMeta s)\<rparr>
      in (s3, snd (assignSocketToRoom ws d r s)
              @ sendJson s3 ws (helloAck r d (trimmed_field msg ''displayName'') (routeMeta s3 d))))"
  by (frule validateHello_accepts) (simp add: on_message_def on_hello_def Let_def case_prod_beta)

lemma assign_ready_self:
  "readyState (fst (assignSocketToRoom ws d r s)) ws = readyState s ws"
  by (cases r) (simp_all add: assign_driver_ready assign_viewer_ready)

subsection \<open>The token bucket\<close>

text \<open>Doubles that are small integers round to themselves.\<close>

lemma fl_small:
  "fl 0 = 0" "fl 1 = 1" "fl 2 = 2" "fl 3 = 3" "fl 4 = 4" "fl 5 = 5"
  by code_simp+

text \<open>The refill is kept as one term in the proof of \<open>consume_formula\<close>.\<close>

lemma on_message_rate_other:
  "c \<noteq> ws \<Longrightarrow> rate (meta (fst (on_message ws raw t0 now s)) c) = rate (meta s c)"
  by (simp add: on_message_def on_hello_def on_telemetry_def Let_def case_prod_beta assign_meta
      split: option.splits)

lemma on_telemetry_dropped:
  assumes "role (meta s ws) = Some Driver" "validateTelemetry msg = None"
    "msg_deviceId msg = deviceId (meta s ws)" "\<not> fst (consumeRateToken t0 now (meta s ws))"
  shows "on_message ws (Some msg) t0 now s
           = (s\<lparr>meta := (meta s)(ws := snd (consumeRateToken t0 now (meta s ws)))\<rparr>, [])"
proof -
  from assms(2) have ty: "is_object msg \<and> field msg ''type'' = Some (JStr ''telemetry'')"
    by (simp add: validateTelemetry_def split: if_splits)
  from assms(2) obtain d where d: "msg_deviceId msg = Some d"
    by (auto simp: validateTelemetry_def msg_deviceId_def split: if_splits option.splits json.splits)
  from d assms(3) have dm: "deviceId (meta s ws) = Some d" by simp
  show ?thesis
    using assms(1,2,4) ty d dm
    by (simp add: on_message_def on_telemetry_def Let_def case_prod_beta)
qed

lemma consume_formula:
  "(let b = (case rate m of None \<Rightarrow> \<lparr>tokens = 5, last_ms = t0\<rparr> | Some b \<Rightarrow> b);
        topped = min 5 (js_add (tokens b)
                          (js_mul (js_div (js_sub (of_int now) (of_int (last_ms b))) 1000) 5))
    in fst (consumeRateToken t0 now m) = (1 \<le> topped)
       \<and> rate (snd (consumeRateToken t0 now m))
           = Some \<lparr>tokens = (if 1 \<le> topped then js_sub topped 1 else topped), last_ms = now\<rparr>
       \<and> topped \<le> 5)"
proof -
  define f where "f = (\<lambda>b::bucket. min (5::rat) (js_add (tokens b)
      (js_mul (js_div (js_sub (of_int now) (of_int (last_ms b))) 1000) 5)))"
  define b where "b = (case rate m of None \<Rightarrow> \<lparr>tokens = 5, last_ms = t0\<rparr> | Some b \<Rightarrow> b)"
  have code: "consumeRateToken t0 now m =
      (case rate (initRateLimiter t0 m) of
         None \<Rightarrow> (False, initRateLimiter t0 m)
       | Some b \<Rightarrow>
           if f b < 1
           then (False, (initRateLimiter t0 m)\<lparr>rate := Some \<lparr>tokens = f b, last_ms = now\<rparr>\<rparr>)
           else (True, (initRateLimiter t0 m)\<lparr>rate := Some \<lparr>tokens = js_sub (f b) 1, last_ms = now\<rparr>\<rparr>))"
    by (simp only: consumeRateToken_def Let_def TELEMETRY_LIMIT_PER_SEC_def f_def)
  have ini: "rate (initRateLimiter t0 m) = Some b"
    by (simp add: initRateLimiter_def b_def TELEMETRY_LIMIT_PER_SEC_def split: option.splits)
  have res: "fst (consumeRateToken t0 now m) = (1 \<le> f b)
      \<and> rate (snd (consumeRateToken t0 now m))
          = Some \<lparr>tokens = (if 1 \<le> f b then js_sub (f b) 1 else f b), last_ms = now\<rparr>"
    by (simp add: code ini not_less)
  have le: "f b \<le> 5" by (simp add: f_def)
  from res le show ?thesis by (simp only: Let_def f_def b_def)
qed

subsection \<open>Snapshots\<close>

lemma remove_snapshot_None:
  "latestTelemetry s d = None \<Longrightarrow> latestTelemetry (removeSocketFromRoom ws s) d = None"
  by (simp add: removeSocketFromRoom_def Let_def split: option.splits)

lemma assign_viewer_out:
  "snd (assignSocketToRoom ws d Viewer s)
     = (case latestTelemetry (removeSocketFromRoom ws s) d of
          None \<Rightarrow> []
        | Some snapshot \<Rightarrow> if readyState s ws = OPEN then [Send ws snapshot] else [])"
  by (simp add: assignSocketToRoom_def Let_def case_prod_beta sendJson_def split: option.splits)

lemma truthy_member_other: "k' \<noteq> k \<Longrightarrow> map_of (rev (truthy_member k x)) k' = None"
  by (cases x) simp_all

lemma hello_ack_type: "field (helloAck r d n m) ''type'' = Some (JStr ''hello-ack'')"
  by (simp add: helloAck_def map_add_def truthy_member_other)

lemma viewer_catch_up:
  assumes "validateHello msg = None" "msg_role msg = Some Viewer" "msg_deviceId msg = Some d"
    "readyState s ws = OPEN" "latestTelemetry (removeSocketFromRoom ws s) d = Some snapshot"
  shows "\<exists>ack. snd (on_message ws (Some msg) t0 now s) = [Send ws snapshot, Send ws ack]
           \<and> field ack ''type'' = Some (JStr ''hello-ack'')"
  using assms(4,5)
  by (simp add: on_message_hello [OF assms(1) assms(3) assms(2)] Let_def assign_viewer_out
      sendJson_def assign_ready_self hello_ack_type)

lemma telemetry_stored_is_broadcast:
  assumes "role (meta s ws) = Some Driver" "validateTelemetry msg = None"
    "msg_deviceId msg = Some d" "deviceId (meta s ws) = Some d"
    "fst (consumeRateToken t0 now (meta s ws))"
    "on_message ws (Some msg) t0 now s = (s', out)"
  shows "\<exists>payload. latestTelemetry s' d = Some payload
           \<and> (\<forall>e \<in> set out. \<exists>v. e = Send v payload)"
proof -
  from assms(2) have ty: "is_object msg \<and> field msg ''type'' = Some (JStr ''telemetry'')"
    by (simp add: validateTelemetry_def split: if_splits)
  show ?thesis
    using assms ty
    by (auto simp: on_message_def on_telemetry_def Let_def case_prod_beta sendJson_def
        split: if_splits)
qed

lemma remove_no_empty_room:
  assumes "deviceId (meta s ws) = Some d" "d \<noteq> []" "rooms s d \<noteq> None"
  shows "(case rooms (removeSocketFromRoom ws s) d of
            None \<Rightarrow> latestTelemetry (removeSocketFromRoom ws s) d = None
          | Some r' \<Rightarrow> driver r' \<noteq> None \<or> viewers r' \<noteq> [])"
  using assms
  by (auto simp: removeSocketFromRoom_def Let_def split: option.splits)

lemma viewer_hello_without_snapshot:
  assumes "latestTelemetry s d = None" "validateHello msg = None" "msg_role msg = Some Viewer"
    "msg_deviceId msg = Some d"
  shows "\<exists>ack. snd (on_message w (Some msg) t0 now s) = sendJson s w ack
           \<and> field ack ''type'' = Some (JStr ''hello-ack'')"
proof -
  let ?ack = "helloAck Viewer d (trimmed_field msg ''displayName'')
                (routeMeta (fst (on_message w (Some msg) t0 now s)) d)"
  have "snd (on_message w (Some msg) t0 now s) = sendJson s w ?ack"
    using remove_snapshot_None [OF assms(1), of w]
    by (simp add: on_message_hello [OF assms(2) assms(4) assms(3)] Let_def assign_viewer_out
        sendJson_def assign_ready_self)
  then show ?thesis using hello_ack_type by blast
qed

lemma validateTelemetry_accepts:
  "validateTelemetry msg = None \<Longrightarrow>
     is_object msg \<and> field msg ''type'' = Some (JStr ''telemetry'')
     \<and> (\<exists>d. msg_deviceId msg = Some d \<and> trim d \<noteq> [])"
  by (auto simp: validateTelemetry_def msg_deviceId_def split: if_splits option.splits json.splits)

subsection \<open>Assigning the driver of a room again\<close>

lemma assign_same_driver:
  assumes "drives s ws d" "role (meta s ws) = Some Driver" "deviceId (meta s ws) = Some d" "d \<noteq> []"
  shows "snd (assignSocketToRoom ws d Driver s) = []
         \<and> rooms (fst (assignSocketToRoom ws d Driver s)) = rooms s
         \<and> meta (fst (assignSocketToRoom ws d Driver s)) = meta s
         \<and> readyState (fst (assignSocketToRoom ws d Driver s)) = readyState s"
proof -
  from assms(1) obtain r where r: "rooms s d = Some r" "driver r = Some ws"
    by (auto simp: drives_def split: option.splits)
  have m: "(meta s)(ws := (meta s ws)\<lparr>role := Some Driver, deviceId := Some d\<rparr>) = meta s"
    using assms(2,3) by (auto simp: fun_eq_iff)
  have rr: "r\<lparr>driver := Some ws\<rparr> = r" using r(2) by simp
  show ?thesis
  proof (cases "viewers r = []")
    case True
    then show ?thesis
      using assms r m rr
      by (simp add: assignSocketToRoom_def removeSocketFromRoom_def ensureRoom_def Let_def fun_upd_idem)
  next
    case False
    then show ?thesis
      using assms r m rr
      by (simp add: assignSocketToRoom_def removeSocketFromRoom_def ensureRoom_def Let_def fun_upd_idem)
  qed
qed


lemma trim_Nil [simp]: "trim [] = []"
  by (simp add: trim_def)

section \<open>The Device Memory\<close>

text \<open>\<open>trim\<close> is idempotent, so what \<open>trimmed_field\<close> gives is empty or trimmed, and
  the merges keep \<open>memory_ok\<close>.\<close>

lemma trim_idem: "trim (trim s) = trim s"
proof -
  define t where "t = dropWhile is_ws s"
  define u where "u = dropWhile is_ws (rev t)"
  have 1: "dropWhile is_ws (rev u) = rev u"
  proof (cases "u = []")
    case True
    then show ?thesis by simp
  next
    case False
    have "rev t = takeWhile is_ws (rev t) @ u" by (simp add: u_def)
    with False have "last u = last (rev t)" by (metis last_appendR)
    moreover from False have ne: "rev t \<noteq> []" by (auto simp: u_def)
    ultimately have "last u = hd t" by (simp add: last_rev)
    moreover from ne have "t \<noteq> []" by simp
    then have "\<not> is_ws (hd t)" unfolding t_def by (rule hd_dropWhile)
    ultimately have "\<not> is_ws (hd (rev u))" using False by (simp add: hd_rev)
    then show ?thesis by (simp add: dropWhile_eq_self_iff)
  qed
  have 2: "dropWhile is_ws u = u" by (simp add: u_def)
  show ?thesis by (simp add: trim_def t_def [symmetric] u_def [symmetric] 1 2)
qed

lemma trimmed_field_ok:
  "trimmed_value (if trimmed_field msg k \<noteq> [] then Some (trimmed_field msg k) else None)"
  by (simp add: trimmed_field_def trim_idem split: option.splits json.splits)

lemma trimmed_value_nonempty: "x \<noteq> [] \<Longrightarrow> trimmed_value (Some x) \<Longrightarrow> trim x = x"
  by simp

lemma merge_name_ok:
  assumes "\<forall>d. trimmed_value (nm d)" "trimmed_value (if n \<noteq> [] then Some n else None)"
  shows "trimmed_value (merge_name d n nm d')"
  using assms by (auto simp: merge_name_def split: if_splits)

lemma merge_route_ok:
  assumes "\<forall>d. trimmed_value (route_of rm d) \<and> trimmed_value (direction_of rm d)"
    "trimmed_value (if r \<noteq> [] then Some r else None)"
    "trimmed_value (if dir \<noteq> [] then Some dir else None)"
  shows "trimmed_value (route_of (merge_route d r dir rm) d')
         \<and> trimmed_value (direction_of (merge_route d r dir rm) d')"
  using assms by (auto simp: merge_route_def route_of_def direction_of_def split: option.splits)

lemma memory_after_message:
  "names (fst (on_message ws raw t0 now s)) = names s
     \<or> (\<exists>d msg. raw = Some msg
          \<and> names (fst (on_message ws raw t0 now s))
              = merge_name d (trimmed_field msg ''displayName'') (names s))"
  "routeMeta (fst (on_message ws raw t0 now s)) = routeMeta s
     \<or> (\<exists>d msg. raw = Some msg
          \<and> routeMeta (fst (on_message ws raw t0 now s))
              = merge_route d (trimmed_field msg ''routeId'') (trimmed_field msg ''direction'')
                  (routeMeta s))"
  by (auto simp: on_message_def on_hello_def on_telemetry_def Let_def case_prod_beta
      split: option.splits)


lemma on_message_memory_ok:
  assumes "memory_ok s"
  shows "memory_ok (fst (on_message ws raw t0 now s))"
  unfolding memory_ok_def
proof (intro allI conjI)
  fix d'
  from assms have nm: "\<forall>d. trimmed_value (names s d)"
    and rm: "\<forall>d. trimmed_value (route_of (routeMeta s) d) \<and> trimmed_value (direction_of (routeMeta s) d)"
    by (simp_all add: memory_ok_def)
  show "trimmed_value (names (fst (on_message ws raw t0 now s)) d')"
    using memory_after_message(1) [of ws raw t0 now s] nm
      merge_name_ok [OF nm trimmed_field_ok]
    by auto
  show "trimmed_value (route_of (routeMeta (fst (on_message ws raw t0 now s))) d')"
    using memory_after_message(2) [of ws raw t0 now s] rm
      merge_route_ok [OF rm trimmed_field_ok trimmed_field_ok]
    by auto
  show "trimmed_value (direction_of (routeMeta (fst (on_message ws raw t0 now s))) d')"
    using memory_after_message(2) [of ws raw t0 now s] rm
      merge_route_ok [OF rm trimmed_field_ok trimmed_field_ok]
    by auto
qed

lemma step_memory_ok: "memory_ok s \<Longrightarrow> memory_ok (fst (step e s))"
  by (cases e) (auto simp: on_message_memory_ok, simp_all add: memory_ok_def)

lemma memory_ok_reach: "memory_ok (reach es)"
proof (induction es rule: rev_induct)
  case Nil
  show ?case by (simp add: reach_nil memory_ok_def init_def route_of_def direction_of_def)
next
  case (snoc e es)
  then show ?case by (simp add: reach_snoc step_memory_ok)
qed

lemma blank_name_kept:
  "trimmed_field msg ''displayName'' = [] \<Longrightarrow>
     names (fst (on_message ws (Some msg) t0 now s)) = names s"
  using memory_after_message(1) [of ws "Some msg" t0 now s]
  by (auto simp: merge_name_def)

lemma blank_route_kept:
  "trimmed_field msg ''routeId'' = [] \<Longrightarrow>
     route_of (routeMeta (fst (on_message ws (Some msg) t0 now s))) d = route_of (routeMeta s) d"
  using memory_after_message(2) [of ws "Some msg" t0 now s]
  by (auto simp: merge_route_def route_of_def split: option.splits)

lemma blank_direction_kept:
  "trimmed_field msg ''direction'' = [] \<Longrightarrow>
     direction_of (routeMeta (fst (on_message ws (Some msg) t0 now s))) d
       = direction_of (routeMeta s) d"
  using memory_after_message(2) [of ws "Some msg" t0 now s]
  by (auto simp: merge_route_def direction_of_def split: option.splits)

section \<open>The registry in every state the server reaches\<close>

text \<open>The rooms hold live sockets bound to their device only, every room has a live socket
  bound to its device, and every snapshot has a room.\<close>

lemma occ_invD:
  "occ_inv s \<Longrightarrow> rooms s d = Some r \<Longrightarrow>
     d \<noteq> []
     \<and> (driver r = Some c \<longrightarrow>
          live s c \<and> role (meta s c) = Some Driver \<and> deviceId (meta s c) = Some d)
     \<and> (c \<in> set (viewers r) \<longrightarrow>
          live s c \<and> role (meta s c) = Some Viewer \<and> deviceId (meta s c) = Some d)"
  by (simp add: occ_inv_def)

lemma remove_other_room:
  "deviceId (meta s ws) \<noteq> Some d \<Longrightarrow>
     rooms (removeSocketFromRoom ws s) d = rooms s d
     \<and> latestTelemetry (removeSocketFromRoom ws s) d = latestTelemetry s d"
  by (auto simp: removeSocketFromRoom_def Let_def split: option.splits)

lemma remove_rooms_cases:
  "rooms (removeSocketFromRoom ws s) d = Some r' \<Longrightarrow>
     \<exists>r. rooms s d = Some r \<and> (driver r' = driver r \<or> driver r' = None)
          \<and> set (viewers r') \<subseteq> set (viewers r)"
  by (auto simp: removeSocketFromRoom_def Let_def split: option.splits if_splits)

lemma remove_own_room:
  assumes "deviceId (meta s ws) = Some d" "rooms s d = Some r" "d \<noteq> []"
    "rooms (removeSocketFromRoom ws s) d = Some r'"
  shows "r' = (if role (meta s ws) = Some Driver \<and> driver r = Some ws then r\<lparr>driver := None\<rparr>
               else if role (meta s ws) = Some Viewer
                 then r\<lparr>viewers := removeAll ws (viewers r)\<rparr>
               else r)"
  using assms
  by (auto simp: removeSocketFromRoom_def Let_def split: option.splits if_splits)

lemma remove_not_occupant:
  assumes "occ_inv s" "rooms (removeSocketFromRoom ws s) d = Some r'"
  shows "driver r' \<noteq> Some ws \<and> ws \<notin> set (viewers r')"
proof (cases "deviceId (meta s ws) = Some d")
  case False
  with assms(2) have "rooms s d = Some r'" by (simp add: remove_other_room)
  from occ_invD [OF assms(1) this, of ws] False show ?thesis by auto
next
  case True
  from remove_rooms_cases [OF assms(2)] obtain r where r: "rooms s d = Some r" by blast
  note o = occ_invD [OF assms(1) r, of ws]
  from o have ne: "d \<noteq> []" by simp
  note eq = remove_own_room [OF True r ne assms(2)]
  show ?thesis
  proof (cases "role (meta s ws)")
    case None
    with o eq show ?thesis by auto
  next
    case (Some a)
    with o eq show ?thesis by (cases a) auto
  qed
qed

lemma remove_occ_inv:
  assumes "occ_inv s"
  shows "occ_inv (removeSocketFromRoom ws s)"
  unfolding occ_inv_def
proof (intro allI impI)
  fix d r' c
  assume a: "rooms (removeSocketFromRoom ws s) d = Some r'"
  from remove_rooms_cases [OF a] obtain r where r: "rooms s d = Some r"
    "driver r' = driver r \<or> driver r' = None" "set (viewers r') \<subseteq> set (viewers r)" by blast
  from occ_invD [OF assms r(1), of c] r(2,3)
  show "d \<noteq> []
     \<and> (driver r' = Some c \<longrightarrow>
          live (removeSocketFromRoom ws s) c
          \<and> role (meta (removeSocketFromRoom ws s) c) = Some Driver
          \<and> deviceId (meta (removeSocketFromRoom ws s) c) = Some d)
     \<and> (c \<in> set (viewers r') \<longrightarrow>
          live (removeSocketFromRoom ws s) c
          \<and> role (meta (removeSocketFromRoom ws s) c) = Some Viewer
          \<and> deviceId (meta (removeSocketFromRoom ws s) c) = Some d)"
    by (auto simp: live_def)
qed

lemma remove_room_witness:
  assumes "registry_inv s" "rooms (removeSocketFromRoom ws s) d \<noteq> None"
  shows "\<exists>c. c \<noteq> ws \<and> live s c \<and> deviceId (meta s c) = Some d"
proof (cases "deviceId (meta s ws) = Some d")
  case False
  with assms(2) have "rooms s d \<noteq> None" by (simp add: remove_other_room)
  with assms(1) obtain c where c: "live s c" "deviceId (meta s c) = Some d"
    by (auto simp: registry_inv_def room_inv_def)
  with False have "c \<noteq> ws" by auto
  with c show ?thesis by blast
next
  case True
  from assms(2) obtain r' where r': "rooms (removeSocketFromRoom ws s) d = Some r'" by auto
  from assms(1) have oi: "occ_inv s" by (simp add: registry_inv_def)
  from remove_rooms_cases [OF r'] obtain r where r: "rooms s d = Some r" by blast
  from occ_invD [OF oi r, of ws] have ne: "d \<noteq> []" by simp
  from remove_no_empty_room [OF True ne] r r'
  have "driver r' \<noteq> None \<or> viewers r' \<noteq> []" by simp
  then obtain c where c: "driver r' = Some c \<or> c \<in> set (viewers r')"
    by (cases "viewers r'") auto
  with remove_not_occupant [OF oi r'] have "c \<noteq> ws" by auto
  moreover from occ_invD [OF remove_occ_inv [OF oi] r', of c] c
  have "live s c \<and> deviceId (meta s c) = Some d" by (auto simp: live_def)
  ultimately show ?thesis by blast
qed

lemma remove_snap_inv:
  assumes "snap_inv s" "latestTelemetry (removeSocketFromRoom ws s) d \<noteq> None"
  shows "rooms (removeSocketFromRoom ws s) d \<noteq> None"
  using assms
  by (auto simp: snap_inv_def removeSocketFromRoom_def Let_def split: option.splits if_splits)

text \<open>A state whose rooms and snapshots are those after the detach of \<open>ws\<close>, and whose other
  sockets are as before.\<close>

lemma registry_after_remove:
  assumes "registry_inv s"
    "rooms s' = rooms (removeSocketFromRoom ws s)"
    "latestTelemetry s' = latestTelemetry (removeSocketFromRoom ws s)"
    "\<forall>c. c \<noteq> ws \<longrightarrow> live s' c = live s c \<and> role (meta s' c) = role (meta s c)
          \<and> deviceId (meta s' c) = deviceId (meta s c)"
  shows "registry_inv s'"
proof -
  from assms(1) have oi: "occ_inv s" and si: "snap_inv s" by (simp_all add: registry_inv_def)
  have "occ_inv s'"
    unfolding occ_inv_def
  proof (intro allI impI)
    fix d r' c
    assume "rooms s' d = Some r'"
    with assms(2) have a: "rooms (removeSocketFromRoom ws s) d = Some r'" by simp
    note n = remove_not_occupant [OF oi a]
    note o = occ_invD [OF remove_occ_inv [OF oi] a, of c]
    show "d \<noteq> []
       \<and> (driver r' = Some c \<longrightarrow>
            live s' c \<and> role (meta s' c) = Some Driver \<and> deviceId (meta s' c) = Some d)
       \<and> (c \<in> set (viewers r') \<longrightarrow>
            live s' c \<and> role (meta s' c) = Some Viewer \<and> deviceId (meta s' c) = Some d)"
      using n o assms(4) by (auto simp: live_def)
  qed
  moreover have "room_inv s'"
    unfolding room_inv_def
  proof (intro allI impI)
    fix d
    assume "rooms s' d \<noteq> None"
    with assms(2) have "rooms (removeSocketFromRoom ws s) d \<noteq> None" by simp
    from remove_room_witness [OF assms(1) this] assms(4)
    show "\<exists>c. live s' c \<and> deviceId (meta s' c) = Some d" by auto
  qed
  moreover have "snap_inv s'"
    using remove_snap_inv [OF si, of ws] assms(2,3) by (auto simp: snap_inv_def)
  ultimately show ?thesis by (simp add: registry_inv_def)
qed


lemma registry_inv_cong:
  assumes "registry_inv s" "rooms s' = rooms s" "latestTelemetry s' = latestTelemetry s"
    "readyState s' = readyState s"
    "\<forall>c. role (meta s' c) = role (meta s c) \<and> deviceId (meta s' c) = deviceId (meta s c)"
  shows "registry_inv s'"
  using assms
  by (simp add: registry_inv_def occ_inv_def room_inv_def snap_inv_def live_def)

lemma assign_rooms:
  "rooms (fst (assignSocketToRoom ws d r s)) d' =
     (if d' = d
      then Some (let rm = (case rooms (removeSocketFromRoom ws s) d of
                             None \<Rightarrow> \<lparr>driver = None, viewers = []\<rparr> | Some x \<Rightarrow> x)
                 in case r of Driver \<Rightarrow> rm\<lparr>driver := Some ws\<rparr>
                            | Viewer \<Rightarrow> rm\<lparr>viewers := set_add ws (viewers rm)\<rparr>)
      else rooms (removeSocketFromRoom ws s) d')"
  by (cases r)
     (auto simp: assignSocketToRoom_def ensureRoom_def Let_def split: option.splits)

lemma assign_latest:
  "latestTelemetry (fst (assignSocketToRoom ws d r s)) = latestTelemetry (removeSocketFromRoom ws s)"
  by (cases r)
     (auto simp: assignSocketToRoom_def ensureRoom_def Let_def split: option.splits)

lemma assign_live: "live (fst (assignSocketToRoom ws d r s)) c = live s c"
  by (cases r) (auto simp: live_def assign_driver_ready assign_viewer_ready)

lemma assign_registry:
  assumes inv: "registry_inv s" and lv: "live s ws" and ne: "d \<noteq> []"
  shows "registry_inv (fst (assignSocketToRoom ws d r s))"
proof -
  let ?R = "removeSocketFromRoom ws s"
  let ?s' = "fst (assignSocketToRoom ws d r s)"
  from inv have oi: "occ_inv s" and si: "snap_inv s" by (simp_all add: registry_inv_def)
  have other: "live ?s' c = live s c \<and> role (meta ?s' c) = role (meta s c)
      \<and> deviceId (meta ?s' c) = deviceId (meta s c)" if "c \<noteq> ws" for c
    using that by (simp add: assign_live assign_meta)
  have self: "live ?s' ws \<and> role (meta ?s' ws) = Some r \<and> deviceId (meta ?s' ws) = Some d"
    using lv by (simp add: assign_live assign_meta)
  have old: "c \<noteq> ws \<and> live s c \<and> deviceId (meta s c) = Some d'
      \<and> (driver x = Some c \<longrightarrow> role (meta s c) = Some Driver)
      \<and> (c \<in> set (viewers x) \<longrightarrow> role (meta s c) = Some Viewer)"
    if "rooms ?R d' = Some x" "driver x = Some c \<or> c \<in> set (viewers x)" for d' x c
    using remove_not_occupant [OF oi that(1)] occ_invD [OF remove_occ_inv [OF oi] that(1), of c]
      that(2)
    by (auto simp: live_def)
  have "occ_inv ?s'"
    unfolding occ_inv_def
  proof (intro allI impI)
    fix d' x c
    assume a: "rooms ?s' d' = Some x"
    show "d' \<noteq> []
       \<and> (driver x = Some c \<longrightarrow>
            live ?s' c \<and> role (meta ?s' c) = Some Driver \<and> deviceId (meta ?s' c) = Some d')
       \<and> (c \<in> set (viewers x) \<longrightarrow>
            live ?s' c \<and> role (meta ?s' c) = Some Viewer \<and> deviceId (meta ?s' c) = Some d')"
    proof (cases "d' = d")
      case False
      with a have b: "rooms ?R d' = Some x" by (simp add: assign_rooms)
      from occ_invD [OF remove_occ_inv [OF oi] b, of c] have "d' \<noteq> []" by simp
      then show ?thesis using old [OF b, of c] other [of c] by auto
    next
      case True
      show ?thesis
      proof (cases "rooms ?R d")
        case None
        with a True have "x = (case r of Driver \<Rightarrow> \<lparr>driver = Some ws, viewers = []\<rparr>
            | Viewer \<Rightarrow> \<lparr>driver = None, viewers = [ws]\<rparr>)"
          by (cases r) (auto simp: assign_rooms set_add_def)
        then show ?thesis using self True ne by (cases r) auto
      next
        case (Some rm)
        with a True have x: "x = (case r of Driver \<Rightarrow> rm\<lparr>driver := Some ws\<rparr>
            | Viewer \<Rightarrow> rm\<lparr>viewers := set_add ws (viewers rm)\<rparr>)"
          by (cases r) (auto simp: assign_rooms)
        note o = old [OF Some, of c]
        show ?thesis
        proof (cases r)
          case Driver
          with x have "driver x = Some ws" "viewers x = viewers rm" by simp_all
          then show ?thesis using self True ne Driver o other [of c] by auto
        next
          case Viewer
          with x have "driver x = driver rm" "set (viewers x) = insert ws (set (viewers rm))"
            by (auto simp: set_add_def)
          then show ?thesis using self True ne Viewer o other [of c] by auto
        qed
      qed
    qed
  qed
  moreover have "room_inv ?s'"
    unfolding room_inv_def
  proof (intro allI impI)
    fix d'
    assume a: "rooms ?s' d' \<noteq> None"
    show "\<exists>c. live ?s' c \<and> deviceId (meta ?s' c) = Some d'"
    proof (cases "d' = d")
      case True
      with self show ?thesis by blast
    next
      case False
      with a have "rooms ?R d' \<noteq> None" by (simp add: assign_rooms)
      from remove_room_witness [OF inv this] obtain c where
        "c \<noteq> ws" "live s c" "deviceId (meta s c) = Some d'" by blast
      with other [of c] show ?thesis by auto
    qed
  qed
  moreover have "snap_inv ?s'"
    unfolding snap_inv_def
  proof (intro allI impI)
    fix d'
    assume "latestTelemetry ?s' d' \<noteq> None"
    then have "latestTelemetry ?R d' \<noteq> None" by (simp add: assign_latest)
    from remove_snap_inv [OF si this] show "rooms ?s' d' \<noteq> None"
      by (simp add: assign_rooms)
  qed
  ultimately show ?thesis by (simp add: registry_inv_def)
qed


lemma trim_nonempty: "trim d \<noteq> [] \<Longrightarrow> d \<noteq> []"
  by auto

lemma on_hello_registry:
  assumes "registry_inv s" "live s ws"
  shows "registry_inv (fst (on_hello ws msg s))"
proof (cases "validateHello msg")
  case (Some e)
  with assms show ?thesis by (simp add: on_hello_def)
next
  case None
  from validateHello_accepts [OF None] obtain d r where
    d: "msg_deviceId msg = Some d" "msg_role msg = Some r" "trim d \<noteq> []" by blast
  then have ne: "d \<noteq> []" by auto
  show ?thesis
    by (rule registry_inv_cong [OF assign_registry [OF assms ne, of r]])
       (simp_all add: on_hello_def None d Let_def case_prod_beta)
qed

lemma on_telemetry_registry:
  assumes "registry_inv s" "live s ws"
  shows "registry_inv (fst (on_telemetry ws msg t0 now s))"
proof (cases "role (meta s ws) = Some Driver \<and> validateTelemetry msg = None
    \<and> msg_deviceId msg = deviceId (meta s ws) \<and> fst (consumeRateToken t0 now (meta s ws))")
  case False
  have "registry_inv (fst (on_telemetry ws msg t0 now s))"
    by (rule registry_inv_cong [OF assms(1)])
       (use False in \<open>auto simp: on_telemetry_def Let_def case_prod_beta split: option.splits\<close>)
  then show ?thesis .
next
  case True
  from validateTelemetry_accepts obtain d where
    d: "msg_deviceId msg = Some d" "trim d \<noteq> []" using True by blast
  then have ne: "d \<noteq> []" by auto
  from True d have dm: "deviceId (meta s ws) = Some d" by simp
  let ?s' = "fst (on_telemetry ws msg t0 now s)"
  have rooms': "rooms ?s' d' = (if d' = d \<and> rooms s d = None
      then Some \<lparr>driver = None, viewers = []\<rparr> else rooms s d')" for d'
    using True d dm
    by (auto simp: on_telemetry_def Let_def case_prod_beta ensureRoom_def split: option.splits)
  have snap: "latestTelemetry ?s' d' \<noteq> None \<longrightarrow> d' = d \<or> latestTelemetry s d' \<noteq> None" for d'
    using True d dm
    by (auto simp: on_telemetry_def Let_def case_prod_beta ensureRoom_def split: option.splits)
  have keep: "live ?s' c = live s c \<and> role (meta ?s' c) = role (meta s c)
      \<and> deviceId (meta ?s' c) = deviceId (meta s c)" for c
    by (simp add: live_def on_telemetry_keeps)
  from assms(1) have oi: "occ_inv s" and ri: "room_inv s" and si: "snap_inv s"
    by (simp_all add: registry_inv_def)
  have "occ_inv ?s'"
    unfolding occ_inv_def
  proof (intro allI impI)
    fix d' x c
    assume a: "rooms ?s' d' = Some x"
    show "d' \<noteq> []
       \<and> (driver x = Some c \<longrightarrow>
            live ?s' c \<and> role (meta ?s' c) = Some Driver \<and> deviceId (meta ?s' c) = Some d')
       \<and> (c \<in> set (viewers x) \<longrightarrow>
            live ?s' c \<and> role (meta ?s' c) = Some Viewer \<and> deviceId (meta ?s' c) = Some d')"
    proof (cases "d' = d \<and> rooms s d = None")
      case True
      with a rooms' [of d'] ne show ?thesis by auto
    next
      case False
      with a rooms' [of d'] have "rooms s d' = Some x" by auto
      from occ_invD [OF oi this, of c] keep [of c] show ?thesis by simp
    qed
  qed
  moreover have "room_inv ?s'"
    unfolding room_inv_def
  proof (intro allI impI)
    fix d'
    assume a: "rooms ?s' d' \<noteq> None"
    show "\<exists>c. live ?s' c \<and> deviceId (meta ?s' c) = Some d'"
    proof (cases "d' = d")
      case True
      with assms(2) dm keep [of ws] show ?thesis by auto
    next
      case False
      with a rooms' [of d'] have "rooms s d' \<noteq> None" by auto
      with ri obtain c where "live s c" "deviceId (meta s c) = Some d'"
        by (auto simp: room_inv_def)
      with keep [of c] show ?thesis by auto
    qed
  qed
  moreover have "snap_inv ?s'"
    unfolding snap_inv_def
  proof (intro allI impI)
    fix d'
    assume "latestTelemetry ?s' d' \<noteq> None"
    with snap [of d'] have "d' = d \<or> latestTelemetry s d' \<noteq> None" by simp
    with si have "d' = d \<or> rooms s d' \<noteq> None" by (auto simp: snap_inv_def)
    then show "rooms ?s' d' \<noteq> None" using rooms' [of d'] by auto
  qed
  ultimately show ?thesis by (simp add: registry_inv_def)
qed

lemma on_message_registry:
  "registry_inv s \<Longrightarrow> live s ws \<Longrightarrow> registry_inv (fst (on_message ws raw t0 now s))"
  by (simp add: on_message_def on_hello_registry on_telemetry_registry split: option.splits)

lemma remove_after_close_socket:
  "rooms (removeSocketFromRoom ws (close_socket ws s)) = rooms (removeSocketFromRoom ws s)"
  "latestTelemetry (removeSocketFromRoom ws (close_socket ws s))
     = latestTelemetry (removeSocketFromRoom ws s)"
  by (simp_all add: removeSocketFromRoom_def close_socket_def Let_def split: option.splits)

lemma step_registry: "registry_inv s \<Longrightarrow> registry_inv (fst (step e s))"
proof (cases e)
  case (Connection ws)
  assume a: "registry_inv s"
  show ?thesis
  proof (cases "readyState s ws = CONNECTING")
    case True
    have "registry_inv (s\<lparr>meta := (meta s)(ws := meta0), readyState := (readyState s)(ws := OPEN)\<rparr>)"
      using a True
      unfolding registry_inv_def occ_inv_def room_inv_def snap_inv_def live_def
      by (auto, (metis ready_state.distinct(1,3))+)
    with True Connection show ?thesis by simp
  next
    case False
    with a Connection show ?thesis by simp
  qed
next
  case (Message ws raw t0 now)
  assume "registry_inv s"
  then show ?thesis using Message by (auto simp: on_message_registry live_def)
next
  case (SockClose ws)
  assume a: "registry_inv s"
  show ?thesis
  proof (cases "readyState s ws = OPEN \<or> readyState s ws = CLOSING")
    case True
    have "registry_inv ((removeSocketFromRoom ws s)\<lparr>readyState := (readyState s)(ws := CLOSED)\<rparr>)"
      by (rule registry_after_remove [OF a, of _ ws]) (simp_all add: live_def)
    with True SockClose show ?thesis by simp
  next
    case False
    with a SockClose show ?thesis by simp
  qed
next
  case (SockError ws)
  assume a: "registry_inv s"
  show ?thesis
  proof (cases "readyState s ws = OPEN \<or> readyState s ws = CLOSING")
    case True
    have "registry_inv (removeSocketFromRoom ws (close_socket ws s))"
      by (rule registry_after_remove [OF a remove_after_close_socket])
         (simp add: live_def close_socket_def)
    with True SockError show ?thesis by simp
  next
    case False
    with a SockError show ?thesis by simp
  qed
qed

lemma registry_inv_reach: "registry_inv (reach es)"
proof (induction es rule: rev_induct)
  case Nil
  show ?case
    by (simp add: reach_nil registry_inv_def occ_inv_def room_inv_def snap_inv_def init_def)
next
  case (snoc e es)
  then show ?case by (simp add: reach_snoc step_registry)
qed

section \<open>Evaluation of the examples\<close>

text \<open>The definitions the simplifier unfolds to run the examples.\<close>

lemmas ex_defs = hello_msg_def hello_full_def telemetry_msg_def telemetry_out_def one_driver_def
  driver_sent_def two_sockets_def telemetry_event_def
  burst_def viewer_alone_def named_session_over_def sent_and_second_def other_telemetry_def hello_blank_def
  slow_refill_def replaced_def viewer_left_def
lemmas run_defs = reach_def init_def on_message_def on_hello_def on_telemetry_def validateHello_def
  validateTelemetry_def msg_role_def msg_deviceId_def trim_def is_ws_def assignSocketToRoom_def
  removeSocketFromRoom_def ensureRoom_def sendJson_def close_socket_def meta0_def trimmed_field_def
  merge_name_def merge_route_def Let_def error_frame_def quoted_def set_add_def helloAck_def
  telemetry_payload_def consumeRateToken_def initRateLimiter_def TELEMETRY_LIMIT_PER_SEC_def
  js_add_def js_sub_def js_mul_def js_div_def fl_small

lemmas ix_defs = ix_connected_def ix_one_driver_def ix_on_message_def ix_on_first_def ix_on_telemetry_def
  ix_validateHello_def ix_validateTelemetry_def ix_sendJson_def ix_close_socket_def ix_helloAck_def
  info_frame_def bad_hello_def

section \<open>One driver for a device\<close>

text \<open>
  What server.js keeps: in every state it reaches at most one open socket has the
  driver role of a device in its \<^verbatim>\<open>meta\<close>, and that socket is in the driver slot of
  the device's room. A driver assign to a room whose driver slot holds another
  socket \<open>p\<close> closes \<open>p\<close> with code 1001 and reason "driver replaced" and does nothing
  else to a socket; afterwards \<open>p\<close> is not open and the assigned socket, and no
  other, is in the slot.
\<close>

lemma open_driver_unique:
  "(open_driver (reach es) c1 d \<longrightarrow> open_driver (reach es) c2 d \<longrightarrow> c1 = c2)
   \<and> (open_driver (reach es) c1 d \<longrightarrow> drives (reach es) c1 d)
   \<and> (drives s p d' \<longrightarrow> p \<noteq> ws \<longrightarrow>
        snd (assignSocketToRoom ws d' Driver s) = [Close p 1001 ''driver replaced'']
        \<and> readyState (fst (assignSocketToRoom ws d' Driver s)) p \<noteq> OPEN
        \<and> \<not> drives (fst (assignSocketToRoom ws d' Driver s)) p d')
   \<and> drives (fst (assignSocketToRoom ws d' Driver s)) c d' = (c = ws)"
proof -
  have inv: "driver_inv (reach es)" by (rule driver_inv_reach)
  have a: "open_driver (reach es) c1 d \<longrightarrow> open_driver (reach es) c2 d \<longrightarrow> c1 = c2"
    using inv drives_unique [of "reach es" c1 d c2] by (simp add: driver_inv_def)
  have b: "open_driver (reach es) c1 d \<longrightarrow> drives (reach es) c1 d"
    using inv by (simp add: driver_inv_def)
  have c: "drives s p d' \<longrightarrow> p \<noteq> ws \<longrightarrow>
        snd (assignSocketToRoom ws d' Driver s) = [Close p 1001 ''driver replaced'']
        \<and> readyState (fst (assignSocketToRoom ws d' Driver s)) p \<noteq> OPEN
        \<and> \<not> drives (fst (assignSocketToRoom ws d' Driver s)) p d'"
    using assign_replaces [of s p d' ws] by blast
  have e: "drives (fst (assignSocketToRoom ws d' Driver s)) c d' = (c = ws)"
    by (simp add: assign_driver_drives)
  from a b c e show ?thesis by blast
qed

text \<open>
  Claim C1, at the input where server.js departs from it. Socket 0 is the driver of
  \<open>bus-1\<close>, socket 2 a viewer, and socket 1 says hello as driver of \<open>bus-1\<close>. The server
  calls \<^verbatim>\<open>close\<close> on socket 0 and puts socket 1 into the driver slot, but the \<^verbatim>\<open>meta\<close>
  of socket 0 still says driver of \<open>bus-1\<close>. Until the \<^verbatim>\<open>close\<close> event of socket 0
  two live sockets hold the driver role of \<open>bus-1\<close>, and a telemetry message of the
  replaced socket 0 passes the checks of the telemetry branch: it is stored as the
  snapshot of \<open>bus-1\<close> and sent to the viewer.
\<close>

theorem replaced_driver_still_publishes:
  "holds_driver (reach replaced) 0 ''bus-1'' \<and> holds_driver (reach replaced) 1 ''bus-1''
   \<and> (0::nat) \<noteq> 1
   \<and> readyState (reach replaced) 0 = CLOSING \<and> readyState (reach replaced) 1 = OPEN
   \<and> drives (reach replaced) 1 ''bus-1'' \<and> \<not> drives (reach replaced) 0 ''bus-1''
   \<and> step (Message 1 (Some (hello_msg ''driver'' ''bus-1'')) 0 0)
         (reach (one_driver @ [Connection 2, Message 2 (Some (hello_msg ''viewer'' ''bus-1'')) 0 0,
                               Connection 1]))
       = (reach replaced,
          [Close 0 1001 ''driver replaced'', Send 1 (helloAck Driver ''bus-1'' [] None)])
   \<and> snd (step (Message 0 (Some (telemetry_msg ''bus-1'')) 10 10) (reach replaced))
       = [Send 2 (telemetry_out ''bus-1'')]
   \<and> latestTelemetry (fst (step (Message 0 (Some (telemetry_msg ''bus-1'')) 10 10) (reach replaced)))
        ''bus-1'' = Some (telemetry_out ''bus-1'')"
  by (simp add: holds_driver_def live_def drives_def ex_defs run_defs)

section \<open>A hello that fails validation\<close>




section \<open>What the replaced driver receives\<close>

text \<open>
  Claim C3, as it stands, fails on server.js: the driver on socket 0 is open, a second
  driver says hello for the same device, and all the server does is close socket 0
  and acknowledge socket 1. No info frame is sent.
\<close>

theorem replaced_driver_gets_no_info_counterexample:
  "readyState (reach two_sockets) 0 = OPEN \<and> drives (reach two_sockets) 0 ''bus-1''
   \<and> snd (step (Message 1 (Some (hello_msg ''driver'' ''bus-1'')) 0 0) (reach two_sockets))
       = [Close 0 1001 ''driver replaced'', Send 1 (helloAck Driver ''bus-1'' [] None)]"
  by (simp add: ex_defs run_defs drives_def)

text \<open>
  Claim C3, amended. When a driver hello is accepted for a device whose driver is
  another socket \<open>p\<close>, server.js does one thing to \<open>p\<close>: it closes it with code 1001
  and reason "driver replaced", and the new socket is the driver of the room. It is
  index.js that first sends the open socket \<open>p\<close> the info frame "Another driver
  connected", then closes it with the same code, and records the new socket as the
  driver.
\<close>

theorem driver_replacement:
  "(validateHello msg = None \<longrightarrow> msg_role msg = Some Driver \<longrightarrow> msg_deviceId msg = Some d \<longrightarrow>
      drives s p d \<longrightarrow> p \<noteq> ws \<longrightarrow>
        filter (\<lambda>e. target e = p) (snd (on_message ws (Some msg) t0 now s))
          = [Close p 1001 ''driver replaced'']
        \<and> drives (fst (on_message ws (Some msg) t0 now s)) ws d)
   \<and> (ix_validateHello msg = None \<longrightarrow> msg_role msg = Some Driver \<longrightarrow> msg_deviceId msg = Some d \<longrightarrow>
      ix_role x ws = None \<longrightarrow> ix_drivers x d = Some p \<longrightarrow> p \<noteq> ws \<longrightarrow> ix_readyState x p = OPEN \<longrightarrow>
        (\<exists>x'. ix_on_message ws (Some msg) x
                = Inr (x', [Send p (info_frame ''Another driver connected''),
                            Close p 1001 ''driver replaced'']
                           @ ix_sendJson x ws (ix_helloAck Driver d))
              \<and> ix_drivers x' d = Some ws \<and> ix_readyState x' p = CLOSING))"
proof -
  have a: "validateHello msg = None \<longrightarrow> msg_role msg = Some Driver \<longrightarrow> msg_deviceId msg = Some d \<longrightarrow>
      drives s p d \<longrightarrow> p \<noteq> ws \<longrightarrow>
        filter (\<lambda>e. target e = p) (snd (on_message ws (Some msg) t0 now s))
          = [Close p 1001 ''driver replaced'']
        \<and> drives (fst (on_message ws (Some msg) t0 now s)) ws d"
  proof (intro impI)
    assume v: "validateHello msg = None" and r: "msg_role msg = Some Driver"
      and d: "msg_deviceId msg = Some d" and dp: "drives s p d" and ne: "p \<noteq> ws"
    have out: "snd (assignSocketToRoom ws d Driver s) = [Close p 1001 ''driver replaced'']"
      using assign_replaces [of s p d ws] dp ne by simp
    have dr: "drives (fst (assignSocketToRoom ws d Driver s)) ws d"
      by (simp add: assign_driver_drives)
    show "filter (\<lambda>e. target e = p) (snd (on_message ws (Some msg) t0 now s))
          = [Close p 1001 ''driver replaced'']
        \<and> drives (fst (on_message ws (Some msg) t0 now s)) ws d"
      using out dr ne
      by (simp add: on_message_hello [OF v d r] Let_def sendJson_def drives_def)
  qed
  have b: "ix_validateHello msg = None \<longrightarrow> msg_role msg = Some Driver \<longrightarrow> msg_deviceId msg = Some d \<longrightarrow>
      ix_role x ws = None \<longrightarrow> ix_drivers x d = Some p \<longrightarrow> p \<noteq> ws \<longrightarrow> ix_readyState x p = OPEN \<longrightarrow>
        (\<exists>x'. ix_on_message ws (Some msg) x
                = Inr (x', [Send p (info_frame ''Another driver connected''),
                            Close p 1001 ''driver replaced'']
                           @ ix_sendJson x ws (ix_helloAck Driver d))
              \<and> ix_drivers x' d = Some ws \<and> ix_readyState x' p = CLOSING)"
    by (simp add: ix_on_message_def ix_on_first_def ix_sendJson_def ix_close_socket_def Let_def)
  from a b show ?thesis by blast
qed


theorem driver_replacement_witness:
  "validateHello (hello_msg ''driver'' ''bus-1'') = None
   \<and> msg_role (hello_msg ''driver'' ''bus-1'') = Some Driver
   \<and> msg_deviceId (hello_msg ''driver'' ''bus-1'') = Some ''bus-1''
   \<and> drives (reach two_sockets) 0 ''bus-1'' \<and> (0::nat) \<noteq> 1
   \<and> filter (\<lambda>e. target e = 0)
        (snd (on_message 1 (Some (hello_msg ''driver'' ''bus-1'')) 0 0 (reach two_sockets)))
       = [Close 0 1001 ''driver replaced'']
   \<and> drives (fst (on_message 1 (Some (hello_msg ''driver'' ''bus-1'')) 0 0 (reach two_sockets))) 1 ''bus-1''
   \<and> ix_validateHello (hello_msg ''driver'' ''bus-1'') = None
   \<and> ix_role ix_one_driver 1 = None \<and> ix_drivers ix_one_driver ''bus-1'' = Some 0
   \<and> ix_readyState ix_one_driver 0 = OPEN
   \<and> (\<exists>x'. ix_on_message 1 (Some (hello_msg ''driver'' ''bus-1'')) ix_one_driver
              = Inr (x', [Send 0 (info_frame ''Another driver connected''),
                          Close 0 1001 ''driver replaced'',
                          Send 1 (ix_helloAck Driver ''bus-1'')])
            \<and> ix_drivers x' ''bus-1'' = Some 1 \<and> ix_readyState x' 0 = CLOSING)"
proof -
  have v: "validateHello (hello_msg ''driver'' ''bus-1'') = None"
    by (simp add: hello_msg_def validateHello_def trim_def is_ws_def)
  have iv: "ix_validateHello (hello_msg ''driver'' ''bus-1'') = None"
    by (simp add: hello_msg_def ix_validateHello_def trim_def is_ws_def)
  have r: "msg_role (hello_msg ''driver'' ''bus-1'') = Some Driver"
    by (simp add: hello_msg_def msg_role_def)
  have d: "msg_deviceId (hello_msg ''driver'' ''bus-1'') = Some ''bus-1''"
    by (simp add: hello_msg_def msg_deviceId_def)
  have dr: "drives (reach two_sockets) 0 ''bus-1''"
    by (simp add: drives_def ex_defs run_defs)
  have ix: "ix_role ix_one_driver 1 = None \<and> ix_drivers ix_one_driver ''bus-1'' = Some 0
      \<and> ix_readyState ix_one_driver 0 = OPEN \<and> ix_readyState ix_one_driver 1 = OPEN"
    by (simp add: ix_defs hello_msg_def msg_role_def msg_deviceId_def trim_def is_ws_def Let_def)
  note t = driver_replacement [where msg = "hello_msg ''driver'' ''bus-1''" and d = "''bus-1''"
      and s = "reach two_sockets" and p = 0 and ws = 1 and ?t0.0 = 0 and now = 0 and x = ix_one_driver]
  from t v iv r d dr ix show ?thesis by (simp add: ix_sendJson_def)
qed

section \<open>The hello-ack\<close>

text \<open>
  What the hello branch puts into the hello-ack of an accepted hello on an open
  socket: the role and the deviceId of the hello, the trimmed displayName of the
  hello when that is not empty, and for routeId and direction the trimmed value of
  the hello when that is not empty and the value the Device Memory holds otherwise.
  The name the Device Memory holds is not looked up.
\<close>

lemma hello_ack_built:
  "validateHello msg = None \<longrightarrow> msg_deviceId msg = Some d \<longrightarrow> msg_role msg = Some r \<longrightarrow>
   readyState s ws = OPEN \<longrightarrow>
     snd (on_message ws (Some msg) t0 now s)
       = snd (assignSocketToRoom ws d r s)
         @ [Send ws (JObj ([(''type'', JStr ''hello-ack''), (''role'', JStr (role_name r)),
                            (''deviceId'', JStr d)]
              @ (if trimmed_field msg ''displayName'' \<noteq> []
                 then [(''displayName'', JStr (trimmed_field msg ''displayName''))] else [])
              @ truthy_member ''routeId''
                  (if trimmed_field msg ''routeId'' \<noteq> [] then Some (trimmed_field msg ''routeId'')
                   else route_of (routeMeta s) d)
              @ truthy_member ''direction''
                  (if trimmed_field msg ''direction'' \<noteq> [] then Some (trimmed_field msg ''direction'')
                   else direction_of (routeMeta s) d)))]"
proof (intro impI)
  assume v: "validateHello msg = None" and d: "msg_deviceId msg = Some d"
    and r: "msg_role msg = Some r" and op: "readyState s ws = OPEN"
  show "snd (on_message ws (Some msg) t0 now s)
       = snd (assignSocketToRoom ws d r s)
         @ [Send ws (JObj ([(''type'', JStr ''hello-ack''), (''role'', JStr (role_name r)),
                            (''deviceId'', JStr d)]
              @ (if trimmed_field msg ''displayName'' \<noteq> []
                 then [(''displayName'', JStr (trimmed_field msg ''displayName''))] else [])
              @ truthy_member ''routeId''
                  (if trimmed_field msg ''routeId'' \<noteq> [] then Some (trimmed_field msg ''routeId'')
                   else route_of (routeMeta s) d)
              @ truthy_member ''direction''
                  (if trimmed_field msg ''direction'' \<noteq> [] then Some (trimmed_field msg ''direction'')
                   else direction_of (routeMeta s) d)))]"
    using op
    by (simp add: on_message_hello [OF v d r] Let_def sendJson_def assign_ready_self
        helloAck_def merge_route_def route_of_def direction_of_def split: option.splits)
qed

text \<open>
  Claim C4, at the input where server.js departs from it. A driver announced the
  name "Bus A", the route "12" and the direction "outbound" for \<open>bus-1\<close> and left. The
  Device Memory holds all three. A later hello for \<open>bus-1\<close> gives none of them: the
  hello-ack has the remembered routeId and direction, and no displayName.
\<close>

theorem hello_ack_forgets_name:
  "names (reach named_session_over) ''bus-1'' = Some ''Bus A''
   \<and> snd (step (Message 1 (Some (hello_msg ''driver'' ''bus-1'')) 0 0) (reach named_session_over))
       = [Send 1 (JObj [(''type'', JStr ''hello-ack''), (''role'', JStr ''driver''),
                        (''deviceId'', JStr ''bus-1''), (''routeId'', JStr ''12''),
                        (''direction'', JStr ''outbound'')])]"
  by (simp add: ex_defs run_defs)

section \<open>The rate limiter\<close>

text \<open>
  Claim C5. \<open>consumeRateToken\<close> works on the bucket of the socket's \<^verbatim>\<open>meta\<close>, a new
  bucket holding 5 tokens: it tops the tokens up by the seconds since the bucket was
  last touched times 5, each operation that of the doubles, caps the result at 5, and
  records the time; when at least 1 token is there it takes one and accepts,
  otherwise it rejects and takes nothing. A telemetry message of a driver that is
  rejected has no effect but the new bucket: no frame is sent to the driver or to
  anyone. No message touches the bucket of another socket.
\<close>

theorem token_bucket:
  "(let b = (case rate m of None \<Rightarrow> \<lparr>tokens = 5, last_ms = t0\<rparr> | Some b \<Rightarrow> b);
        topped = min 5 (js_add (tokens b)
                          (js_mul (js_div (js_sub (of_int now) (of_int (last_ms b))) 1000) 5))
    in fst (consumeRateToken t0 now m) = (1 \<le> topped)
       \<and> rate (snd (consumeRateToken t0 now m))
           = Some \<lparr>tokens = (if 1 \<le> topped then js_sub topped 1 else topped), last_ms = now\<rparr>
       \<and> topped \<le> 5)
   \<and> (role (meta s ws) = Some Driver \<longrightarrow> validateTelemetry msg = None \<longrightarrow>
      msg_deviceId msg = deviceId (meta s ws) \<longrightarrow> \<not> fst (consumeRateToken t0 now (meta s ws)) \<longrightarrow>
        on_message ws (Some msg) t0 now s
          = (s\<lparr>meta := (meta s)(ws := snd (consumeRateToken t0 now (meta s ws)))\<rparr>, []))
   \<and> (c \<noteq> ws \<longrightarrow> rate (meta (fst (on_message ws raw t0 now s)) c) = rate (meta s c))"
proof -
  note a = consume_formula [where m = m and ?t0.0 = t0 and now = now]
  show ?thesis
    using a on_telemetry_dropped [of s ws msg t0 now] on_message_rate_other [of c ws raw t0 now s]
    by blast
qed

text \<open>
  The driver has used its five tokens at the clock reading 10 and was rejected at 26.
  At 210 the doubles give \<open>0.08 + 0.9199999999999999 = 0.9999999999999999\<close>, less
  than 1, and the message is dropped without a frame; at 1010 the bucket would be
  full again.
\<close>

theorem token_bucket_witness:
  "role (meta (reach slow_refill) 0) = Some Driver
   \<and> validateTelemetry (telemetry_msg ''bus-1'') = None
   \<and> msg_deviceId (telemetry_msg ''bus-1'') = deviceId (meta (reach slow_refill) 0)
   \<and> rate (meta (reach slow_refill) 0)
       = Some \<lparr>tokens = 5764607523034235 / 72057594037927936, last_ms = 26\<rparr>
   \<and> \<not> fst (consumeRateToken 210 210 (meta (reach slow_refill) 0))
   \<and> rate (snd (consumeRateToken 210 210 (meta (reach slow_refill) 0)))
       = Some \<lparr>tokens = 1 - 1 / 2 ^ 53, last_ms = 210\<rparr>
   \<and> snd (on_message 0 (Some (telemetry_msg ''bus-1'')) 210 210 (reach slow_refill)) = []
   \<and> fst (consumeRateToken 1010 1010 (meta (reach slow_refill) 0))
   \<and> rate (snd (consumeRateToken 1010 1010 (meta (reach slow_refill) 0)))
       = Some \<lparr>tokens = 4, last_ms = 1010\<rparr>
   \<and> (1::nat) \<noteq> 0
   \<and> rate (meta (fst (on_message 0 (Some (telemetry_msg ''bus-1'')) 210 210 (reach slow_refill))) 1)
       = None"
proof -
  define m where "m = \<lparr>role = Some Driver, deviceId = Some ''bus-1'',
      rate = Some \<lparr>tokens = 5764607523034235 / 72057594037927936, last_ms = 26\<rparr>\<rparr>"
  have m0: "meta (reach slow_refill) 0 = m \<and> rate (meta (reach slow_refill) 1) = None"
    unfolding m_def by code_simp
  have st: "role (meta (reach slow_refill) 0) = Some Driver
      \<and> deviceId (meta (reach slow_refill) 0) = Some ''bus-1''
      \<and> rate (meta (reach slow_refill) 0)
          = Some \<lparr>tokens = 5764607523034235 / 72057594037927936, last_ms = 26\<rparr>
      \<and> rate (meta (reach slow_refill) 1) = None"
    using m0 by (simp add: m_def)
  have v: "validateTelemetry (telemetry_msg ''bus-1'') = None"
    by (simp add: telemetry_msg_def validateTelemetry_def trim_def is_ws_def)
  have d: "msg_deviceId (telemetry_msg ''bus-1'') = Some ''bus-1''"
    by (simp add: telemetry_msg_def msg_deviceId_def)
  have "\<not> fst (consumeRateToken 210 210 m)
      \<and> rate (snd (consumeRateToken 210 210 m)) = Some \<lparr>tokens = 1 - 1 / 2 ^ 53, last_ms = 210\<rparr>
      \<and> fst (consumeRateToken 1010 1010 m)
      \<and> rate (snd (consumeRateToken 1010 1010 m)) = Some \<lparr>tokens = 4, last_ms = 1010\<rparr>"
    unfolding m_def by code_simp
  with m0 have no: "\<not> fst (consumeRateToken 210 210 (meta (reach slow_refill) 0))"
    and left: "rate (snd (consumeRateToken 210 210 (meta (reach slow_refill) 0)))
       = Some \<lparr>tokens = 1 - 1 / 2 ^ 53, last_ms = 210\<rparr>"
    and full: "fst (consumeRateToken 1010 1010 (meta (reach slow_refill) 0))
      \<and> rate (snd (consumeRateToken 1010 1010 (meta (reach slow_refill) 0)))
          = Some \<lparr>tokens = 4, last_ms = 1010\<rparr>"
    by simp_all
  note t = token_bucket [where s = "reach slow_refill" and ws = 0 and ?t0.0 = 210 and now = 210
      and msg = "telemetry_msg ''bus-1''" and c = 1 and raw = "Some (telemetry_msg ''bus-1'')"]
  from t st v d no
  have drop: "snd (on_message 0 (Some (telemetry_msg ''bus-1'')) 210 210 (reach slow_refill)) = []"
    by simp
  from t st
  have other: "rate (meta (fst (on_message 0 (Some (telemetry_msg ''bus-1'')) 210 210
                                  (reach slow_refill))) 1) = None"
    by simp
  from st v d no left full drop other show ?thesis by simp
qed

section \<open>Catch-up of a new viewer\<close>

text \<open>
  Claim C6, at the input where server.js departs from it. A viewer on socket 1 is
  alone in the room of \<open>bus-1\<close> (the driver sent one telemetry message and left), the
  snapshot of \<open>bus-1\<close> is stored, and the viewer says hello again for \<open>bus-1\<close>. The
  assign first detaches the viewer, which empties the room and deletes the snapshot;
  the viewer receives the hello-ack and no snapshot. (\<open>viewer_catch_up\<close> above is the
  case the claim describes: the snapshot that is stored after the detach is sent to
  an open viewer before the hello-ack, and \<open>telemetry_stored_is_broadcast\<close> says
  that the stored payload is the one sent to the viewers.)
\<close>

theorem resubscribing_viewer_gets_no_snapshot:
  "validateHello (hello_msg ''viewer'' ''bus-1'') = None
   \<and> readyState (reach viewer_alone) 1 = OPEN
   \<and> latestTelemetry (reach viewer_alone) ''bus-1'' = Some (telemetry_out ''bus-1'')
   \<and> snd (step (Message 1 (Some (hello_msg ''viewer'' ''bus-1'')) 20 20) (reach viewer_alone))
       = [Send 1 (helloAck Viewer ''bus-1'' [] None)]
   \<and> latestTelemetry (fst (step (Message 1 (Some (hello_msg ''viewer'' ''bus-1'')) 20 20)
                              (reach viewer_alone))) ''bus-1'' = None"
  by (simp add: ex_defs run_defs)

section \<open>The end of a room\<close>

text \<open>
  Claim C7. A socket bound to a device whose room exists is detached: afterwards
  the room is either gone, and then the telemetry snapshot of the device is gone
  too, or it still has a driver or a viewer; no room without driver and viewers is
  left behind. In every state the server reaches, when the \<^verbatim>\<open>close\<close> event comes for
  the only socket left in the room of a device, the room and the snapshot of the
  device are deleted, and a viewer hello for the device that comes next is answered
  with the hello-ack alone. And in every state the server reaches, a device to which
  no connected socket is bound has no room and no snapshot, so a viewer hello for it
  is answered with the hello-ack alone.
\<close>

theorem empty_room_purged:
  "(deviceId (meta s ws) = Some d \<longrightarrow> d \<noteq> [] \<longrightarrow> rooms s d \<noteq> None \<longrightarrow>
      (case rooms (removeSocketFromRoom ws s) d of
         None \<Rightarrow> latestTelemetry (removeSocketFromRoom ws s) d = None
       | Some r' \<Rightarrow> driver r' \<noteq> None \<or> viewers r' \<noteq> []))
   \<and> (occupies (reach es) ws d \<longrightarrow> (\<forall>c. occupies (reach es) c d \<longrightarrow> c = ws) \<longrightarrow>
      rooms (fst (step (SockClose ws) (reach es))) d = None
      \<and> latestTelemetry (fst (step (SockClose ws) (reach es))) d = None
      \<and> (validateHello msg = None \<longrightarrow> msg_role msg = Some Viewer \<longrightarrow> msg_deviceId msg = Some d \<longrightarrow>
           (\<exists>ack. snd (step (Message w (Some msg) t0 now) (fst (step (SockClose ws) (reach es))))
                    = sendJson (fst (step (SockClose ws) (reach es))) w ack
                  \<and> field ack ''type'' = Some (JStr ''hello-ack''))))
   \<and> ((\<forall>c. live (reach es) c \<longrightarrow> deviceId (meta (reach es) c) \<noteq> Some d) \<longrightarrow>
      rooms (reach es) d = None \<and> latestTelemetry (reach es) d = None
      \<and> (validateHello msg = None \<longrightarrow> msg_role msg = Some Viewer \<longrightarrow> msg_deviceId msg = Some d \<longrightarrow>
           (\<exists>ack. snd (step (Message w (Some msg) t0 now) (reach es)) = sendJson (reach es) w ack
                  \<and> field ack ''type'' = Some (JStr ''hello-ack''))))"
proof -
  have hello: "\<exists>ack. snd (step (Message w (Some msg) t0 now) x) = sendJson x w ack
                  \<and> field ack ''type'' = Some (JStr ''hello-ack'')"
    if h: "latestTelemetry x d = None" "validateHello msg = None" "msg_role msg = Some Viewer"
      "msg_deviceId msg = Some d" for x
  proof -
    obtain ack where ack: "snd (on_message w (Some msg) t0 now x) = sendJson x w ack"
      "field ack ''type'' = Some (JStr ''hello-ack'')"
      using viewer_hello_without_snapshot [OF h, of w t0 now] by blast
    have "snd (step (Message w (Some msg) t0 now) x) = sendJson x w ack"
    proof (cases "readyState x w = OPEN \<or> readyState x w = CLOSING")
      case True
      then show ?thesis using ack(1) by simp
    next
      case False
      then show ?thesis by (auto simp: sendJson_def)
    qed
    with ack(2) show ?thesis by blast
  qed
  have inv: "registry_inv (reach es)" by (rule registry_inv_reach)
  have a: "deviceId (meta s ws) = Some d \<longrightarrow> d \<noteq> [] \<longrightarrow> rooms s d \<noteq> None \<longrightarrow>
      (case rooms (removeSocketFromRoom ws s) d of
         None \<Rightarrow> latestTelemetry (removeSocketFromRoom ws s) d = None
       | Some r' \<Rightarrow> driver r' \<noteq> None \<or> viewers r' \<noteq> [])"
    using remove_no_empty_room [of s ws d] by blast
  have b: "rooms (fst (step (SockClose ws) (reach es))) d = None
      \<and> latestTelemetry (fst (step (SockClose ws) (reach es))) d = None"
    if occ: "occupies (reach es) ws d" and last: "\<forall>c. occupies (reach es) c d \<longrightarrow> c = ws"
  proof -
    let ?s = "reach es"
    let ?R = "removeSocketFromRoom ws ?s"
    from inv have oi: "occ_inv ?s" by (simp add: registry_inv_def)
    from occ obtain r where r: "rooms ?s d = Some r" "driver r = Some ws \<or> ws \<in> set (viewers r)"
      by (auto simp: occupies_def split: option.splits)
    from occ_invD [OF oi r(1), of ws] r(2)
    have bound: "live ?s ws" "deviceId (meta ?s ws) = Some d" "d \<noteq> []" by auto
    have gone: "rooms ?R d = None"
    proof (rule ccontr)
      assume "rooms ?R d \<noteq> None"
      then obtain r' where r': "rooms ?R d = Some r'" by auto
      from remove_no_empty_room [OF bound(2,3)] r(1) r'
      have "driver r' \<noteq> None \<or> viewers r' \<noteq> []" by simp
      then obtain c where c: "driver r' = Some c \<or> c \<in> set (viewers r')"
        by (cases "viewers r'") auto
      from remove_rooms_cases [OF r'] r(1) c have "occupies ?s c d"
        by (auto simp: occupies_def)
      with last have "c = ws" by simp
      with c remove_not_occupant [OF oi r'] show False by auto
    qed
    with remove_no_empty_room [OF bound(2,3)] r(1)
    have snap: "latestTelemetry ?R d = None" by simp
    from bound(1) gone snap show ?thesis by (auto simp: live_def)
  qed
  have c: "rooms (reach es) d = None \<and> latestTelemetry (reach es) d = None"
    if none: "\<forall>c. live (reach es) c \<longrightarrow> deviceId (meta (reach es) c) \<noteq> Some d"
  proof -
    from inv none have "rooms (reach es) d = None"
      by (auto simp: registry_inv_def room_inv_def)
    moreover from inv this have "latestTelemetry (reach es) d = None"
      by (auto simp: registry_inv_def snap_inv_def)
    ultimately show ?thesis by simp
  qed
  show ?thesis
  proof (intro conjI impI)
    assume "deviceId (meta s ws) = Some d" "d \<noteq> []" "rooms s d \<noteq> None"
    with a show "case rooms (removeSocketFromRoom ws s) d of
         None \<Rightarrow> latestTelemetry (removeSocketFromRoom ws s) d = None
       | Some r' \<Rightarrow> driver r' \<noteq> None \<or> viewers r' \<noteq> []" by blast
  next
    assume "occupies (reach es) ws d" "\<forall>c. occupies (reach es) c d \<longrightarrow> c = ws"
    from b [OF this] show "rooms (fst (step (SockClose ws) (reach es))) d = None" ..
  next
    assume "occupies (reach es) ws d" "\<forall>c. occupies (reach es) c d \<longrightarrow> c = ws"
    from b [OF this] show "latestTelemetry (fst (step (SockClose ws) (reach es))) d = None" ..
  next
    assume "occupies (reach es) ws d" "\<forall>c. occupies (reach es) c d \<longrightarrow> c = ws"
    from b [OF this] have "latestTelemetry (fst (step (SockClose ws) (reach es))) d = None" ..
    moreover assume "validateHello msg = None" "msg_role msg = Some Viewer" "msg_deviceId msg = Some d"
    ultimately show "\<exists>ack. snd (step (Message w (Some msg) t0 now) (fst (step (SockClose ws) (reach es))))
                  = sendJson (fst (step (SockClose ws) (reach es))) w ack
                \<and> field ack ''type'' = Some (JStr ''hello-ack'')" by (rule hello)
  next
    assume "\<forall>c. live (reach es) c \<longrightarrow> deviceId (meta (reach es) c) \<noteq> Some d"
    from c [OF this] show "rooms (reach es) d = None" ..
  next
    assume "\<forall>c. live (reach es) c \<longrightarrow> deviceId (meta (reach es) c) \<noteq> Some d"
    from c [OF this] show "latestTelemetry (reach es) d = None" ..
  next
    assume "\<forall>c. live (reach es) c \<longrightarrow> deviceId (meta (reach es) c) \<noteq> Some d"
    from c [OF this] have "latestTelemetry (reach es) d = None" ..
    moreover assume "validateHello msg = None" "msg_role msg = Some Viewer" "msg_deviceId msg = Some d"
    ultimately show "\<exists>ack. snd (step (Message w (Some msg) t0 now) (reach es)) = sendJson (reach es) w ack
                \<and> field ack ''type'' = Some (JStr ''hello-ack'')" by (rule hello)
  qed
qed

theorem empty_room_purged_witness:
  "deviceId (meta (reach viewer_left) 0) = Some ''bus-1'' \<and> ''bus-1'' \<noteq> []
   \<and> rooms (reach viewer_left) ''bus-1'' = Some \<lparr>driver = Some 0, viewers = []\<rparr>
   \<and> latestTelemetry (reach viewer_left) ''bus-1'' = Some (telemetry_out ''bus-1'')
   \<and> occupies (reach viewer_left) 0 ''bus-1''
   \<and> \<not> (\<exists>c. c \<noteq> 0 \<and> occupies (reach viewer_left) c ''bus-1'')
   \<and> rooms (removeSocketFromRoom 0 (reach viewer_left)) ''bus-1'' = None
   \<and> latestTelemetry (removeSocketFromRoom 0 (reach viewer_left)) ''bus-1'' = None
   \<and> validateHello (hello_msg ''viewer'' ''bus-1'') = None
   \<and> msg_role (hello_msg ''viewer'' ''bus-1'') = Some Viewer
   \<and> msg_deviceId (hello_msg ''viewer'' ''bus-1'') = Some ''bus-1''
   \<and> rooms (fst (step (SockClose 0) (reach viewer_left))) ''bus-1'' = None
   \<and> latestTelemetry (fst (step (SockClose 0) (reach viewer_left))) ''bus-1'' = None
   \<and> snd (step (Message 1 (Some (hello_msg ''viewer'' ''bus-1'')) 30 30)
             (fst (step (SockClose 0) (reach viewer_left))))
       = [Send 1 (helloAck Viewer ''bus-1'' [] None)]
   \<and> \<not> (\<exists>c. live (reach (viewer_left @ [SockClose 0])) c
             \<and> deviceId (meta (reach (viewer_left @ [SockClose 0])) c) = Some ''bus-1'')
   \<and> rooms (reach (viewer_left @ [SockClose 0])) ''bus-1'' = None
   \<and> latestTelemetry (reach (viewer_left @ [SockClose 0])) ''bus-1'' = None
   \<and> snd (step (Message 1 (Some (hello_msg ''viewer'' ''bus-1'')) 30 30)
             (reach (viewer_left @ [SockClose 0])))
       = [Send 1 (helloAck Viewer ''bus-1'' [] None)]"
proof -
  have st: "deviceId (meta (reach viewer_left) 0) = Some ''bus-1''
      \<and> rooms (reach viewer_left) ''bus-1'' = Some \<lparr>driver = Some 0, viewers = []\<rparr>
      \<and> latestTelemetry (reach viewer_left) ''bus-1'' = Some (telemetry_out ''bus-1'')"
    by (simp add: ex_defs run_defs)
  then have occ: "occupies (reach viewer_left) 0 ''bus-1''"
    and last: "\<forall>c. occupies (reach viewer_left) c ''bus-1'' \<longrightarrow> c = 0"
    by (simp_all add: occupies_def)
  have v: "validateHello (hello_msg ''viewer'' ''bus-1'') = None
      \<and> msg_role (hello_msg ''viewer'' ''bus-1'') = Some Viewer
      \<and> msg_deviceId (hello_msg ''viewer'' ''bus-1'') = Some ''bus-1''"
    by (simp add: hello_msg_def validateHello_def msg_role_def msg_deviceId_def trim_def is_ws_def)
  have none: "\<forall>c. live (reach (viewer_left @ [SockClose 0])) c \<longrightarrow>
      deviceId (meta (reach (viewer_left @ [SockClose 0])) c) \<noteq> Some ''bus-1''"
    by (simp add: live_def ex_defs run_defs)
  have out: "snd (step (Message 1 (Some (hello_msg ''viewer'' ''bus-1'')) 30 30)
             (fst (step (SockClose 0) (reach viewer_left))))
       = [Send 1 (helloAck Viewer ''bus-1'' [] None)]"
    by (simp add: ex_defs run_defs)
  have out': "snd (step (Message 1 (Some (hello_msg ''viewer'' ''bus-1'')) 30 30)
             (reach (viewer_left @ [SockClose 0])))
       = [Send 1 (helloAck Viewer ''bus-1'' [] None)]"
    by (simp add: ex_defs run_defs)
  note t = empty_room_purged [where s = "reach viewer_left" and ws = 0 and d = "''bus-1''"
      and es = viewer_left]
  note u = empty_room_purged [where d = "''bus-1''" and es = "viewer_left @ [SockClose 0]"]
  from t st have 1: "rooms (removeSocketFromRoom 0 (reach viewer_left)) ''bus-1'' = None
      \<longrightarrow> latestTelemetry (removeSocketFromRoom 0 (reach viewer_left)) ''bus-1'' = None"
    by (auto split: option.splits)
  from t occ last have 2: "rooms (fst (step (SockClose 0) (reach viewer_left))) ''bus-1'' = None
      \<and> latestTelemetry (fst (step (SockClose 0) (reach viewer_left))) ''bus-1'' = None"
    by blast
  have 3: "rooms (removeSocketFromRoom 0 (reach viewer_left)) ''bus-1'' = None"
    by (simp add: ex_defs run_defs)
  from u none have 4: "rooms (reach (viewer_left @ [SockClose 0])) ''bus-1'' = None
      \<and> latestTelemetry (reach (viewer_left @ [SockClose 0])) ''bus-1'' = None"
    by blast
  from st occ last v none out out' 1 2 3 4 show ?thesis by auto
qed

section \<open>Telemetry from a socket that may not send it\<close>

text \<open>
  Claim C8. A telemetry message from an open socket whose role is not driver is
  answered with exactly the frame \<^verbatim>\<open>{type:"error",error:"Only drivers may send telemetry"}\<close>,
  and a telemetry message of an open driver whose deviceId is not the one the driver
  is bound to is answered with exactly one error frame (the validation error when
  the message is not valid telemetry, the mismatch error otherwise). In both cases
  the state of the server is unchanged: the socket is still open and in its room,
  and nothing is closed.
\<close>

theorem unauthorised_telemetry_stays_open:
  "(field msg ''type'' = Some (JStr ''telemetry'') \<longrightarrow> role (meta s ws) \<noteq> Some Driver \<longrightarrow>
      readyState s ws = OPEN \<longrightarrow>
        on_message ws (Some msg) t0 now s
          = (s, [Send ws (JObj [(''type'', JStr ''error''),
                                (''error'', JStr ''Only drivers may send telemetry'')])]))
   \<and> (field msg ''type'' = Some (JStr ''telemetry'') \<longrightarrow> role (meta s ws) = Some Driver \<longrightarrow>
      msg_deviceId msg \<noteq> deviceId (meta s ws) \<longrightarrow> readyState s ws = OPEN \<longrightarrow>
        on_message ws (Some msg) t0 now s
          = (s, [Send ws (JObj [(''type'', JStr ''error''),
                   (''error'', JStr (case validateTelemetry msg of
                                       Some e \<Rightarrow> e
                                     | None \<Rightarrow> ''Driver must send telemetry for subscribed deviceId''))])]))"
  by (auto simp: on_message_def on_telemetry_def sendJson_def error_frame_def
      dest: hello_type_object split: option.splits)

theorem unauthorised_telemetry_stays_open_witness:
  "field (telemetry_msg ''bus-1'') ''type'' = Some (JStr ''telemetry'')
   \<and> role (meta (reach two_sockets) 1) \<noteq> Some Driver \<and> readyState (reach two_sockets) 1 = OPEN
   \<and> on_message 1 (Some (telemetry_msg ''bus-1'')) 0 0 (reach two_sockets)
       = (reach two_sockets,
          [Send 1 (JObj [(''type'', JStr ''error''),
                         (''error'', JStr ''Only drivers may send telemetry'')])])
   \<and> field other_telemetry ''type'' = Some (JStr ''telemetry'')
   \<and> role (meta (reach two_sockets) 0) = Some Driver
   \<and> msg_deviceId other_telemetry \<noteq> deviceId (meta (reach two_sockets) 0)
   \<and> readyState (reach two_sockets) 0 = OPEN
   \<and> on_message 0 (Some other_telemetry) 0 0 (reach two_sockets)
       = (reach two_sockets,
          [Send 0 (JObj [(''type'', JStr ''error''),
                         (''error'', JStr ''Driver must send telemetry for subscribed deviceId'')])])"
proof -
  have a: "field (telemetry_msg ''bus-1'') ''type'' = Some (JStr ''telemetry'')
      \<and> field other_telemetry ''type'' = Some (JStr ''telemetry'')
      \<and> msg_deviceId other_telemetry = Some ''bus-2''
      \<and> validateTelemetry other_telemetry = None"
    by (simp add: telemetry_msg_def other_telemetry_def msg_deviceId_def validateTelemetry_def
        trim_def is_ws_def)
  have b: "role (meta (reach two_sockets) 1) = None \<and> readyState (reach two_sockets) 1 = OPEN
      \<and> role (meta (reach two_sockets) 0) = Some Driver
      \<and> deviceId (meta (reach two_sockets) 0) = Some ''bus-1''
      \<and> readyState (reach two_sockets) 0 = OPEN"
    by (simp add: ex_defs run_defs)
  note t = unauthorised_telemetry_stays_open [where msg = "telemetry_msg ''bus-1''"
      and s = "reach two_sockets" and ws = 1 and ?t0.0 = 0 and now = 0]
  note u = unauthorised_telemetry_stays_open [where msg = other_telemetry
      and s = "reach two_sockets" and ws = 0 and ?t0.0 = 0 and now = 0]
  from t u a b show ?thesis by simp
qed

section \<open>What the Device Memory holds\<close>

text \<open>
  Claim C9. In every state the server reaches, every name, routeId and direction the
  Device Memory holds is a string that is not empty and that \<open>trim\<close> leaves as it is.
  A message whose displayName is missing, not a string, or white space only leaves
  the names as they were; a message whose routeId (or direction) is so leaves the
  remembered routeId (or direction) of every device as it was, also when the other
  of the two is given and stored.
\<close>

theorem device_memory_trimmed:
  "trimmed_value (names (reach es) d)
   \<and> trimmed_value (route_of (routeMeta (reach es)) d)
   \<and> trimmed_value (direction_of (routeMeta (reach es)) d)
   \<and> (trimmed_field msg ''displayName'' = [] \<longrightarrow>
        names (fst (on_message ws (Some msg) t0 now s)) = names s)
   \<and> (trimmed_field msg ''routeId'' = [] \<longrightarrow>
        route_of (routeMeta (fst (on_message ws (Some msg) t0 now s))) d'
          = route_of (routeMeta s) d')
   \<and> (trimmed_field msg ''direction'' = [] \<longrightarrow>
        direction_of (routeMeta (fst (on_message ws (Some msg) t0 now s))) d'
          = direction_of (routeMeta s) d')"
proof -
  have "memory_ok (reach es)" by (rule memory_ok_reach)
  then have a: "trimmed_value (names (reach es) d)
      \<and> trimmed_value (route_of (routeMeta (reach es)) d)
      \<and> trimmed_value (direction_of (routeMeta (reach es)) d)"
    by (simp add: memory_ok_def)
  show ?thesis
    using a blank_name_kept [of msg ws t0 now s] blank_route_kept [of msg ws t0 now s d']
      blank_direction_kept [of msg ws t0 now s d']
    by blast
qed

theorem device_memory_trimmed_witness:
  "trimmed_field hello_blank ''displayName'' = [] \<and> trimmed_field hello_blank ''routeId'' = []
   \<and> trimmed_field (hello_msg ''driver'' ''bus-1'') ''direction'' = []
   \<and> names (reach named_session_over) ''bus-1'' = Some ''Bus A''
   \<and> names (fst (on_message 1 (Some hello_blank) 0 0 (reach named_session_over))) ''bus-1''
        = Some ''Bus A''
   \<and> route_of (routeMeta (fst (on_message 1 (Some hello_blank) 0 0 (reach named_session_over)))) ''bus-1''
        = Some ''12''
   \<and> direction_of (routeMeta (fst (on_message 1 (Some hello_blank) 0 0 (reach named_session_over)))) ''bus-1''
        = Some ''inbound''
   \<and> direction_of (routeMeta (fst (on_message 1 (Some (hello_msg ''driver'' ''bus-1'')) 0 0
                                        (reach named_session_over)))) ''bus-1''
        = Some ''outbound''
   \<and> trimmed_value (names (reach named_session_over) ''bus-1'')
   \<and> trimmed_value (route_of (routeMeta (reach named_session_over)) ''bus-1'')
   \<and> trimmed_value (direction_of (routeMeta (reach named_session_over)) ''bus-1'')"
proof -
  have b: "trimmed_field hello_blank ''displayName'' = [] \<and> trimmed_field hello_blank ''routeId'' = []
      \<and> trimmed_field (hello_msg ''driver'' ''bus-1'') ''direction'' = []"
    by (simp add: hello_blank_def hello_full_def hello_msg_def trimmed_field_def trim_def is_ws_def)
  have st: "names (reach named_session_over) ''bus-1'' = Some ''Bus A''
      \<and> route_of (routeMeta (reach named_session_over)) ''bus-1'' = Some ''12''
      \<and> direction_of (routeMeta (reach named_session_over)) ''bus-1'' = Some ''outbound''"
    by (simp add: route_of_def direction_of_def ex_defs run_defs)
  have dir: "direction_of (routeMeta (fst (on_message 1 (Some hello_blank) 0 0 (reach named_session_over)))) ''bus-1''
        = Some ''inbound''"
    by (simp add: direction_of_def ex_defs run_defs)
  note t = device_memory_trimmed [where es = named_session_over and d = "''bus-1''"
      and msg = hello_blank and ws = 1 and ?t0.0 = 0 and now = 0 and s = "reach named_session_over"
      and d' = "''bus-1''"]
  note u = device_memory_trimmed [where msg = "hello_msg ''driver'' ''bus-1''" and ws = 1
      and ?t0.0 = 0 and now = 0 and s = "reach named_session_over" and d' = "''bus-1''"]
  from t b st have 1: "names (fst (on_message 1 (Some hello_blank) 0 0 (reach named_session_over))) ''bus-1''
        = Some ''Bus A''
      \<and> route_of (routeMeta (fst (on_message 1 (Some hello_blank) 0 0 (reach named_session_over)))) ''bus-1''
        = Some ''12''
      \<and> trimmed_value (names (reach named_session_over) ''bus-1'')
      \<and> trimmed_value (route_of (routeMeta (reach named_session_over)) ''bus-1'')
      \<and> trimmed_value (direction_of (routeMeta (reach named_session_over)) ''bus-1'')"
    by simp
  from u b st have 2: "direction_of (routeMeta (fst (on_message 1 (Some (hello_msg ''driver'' ''bus-1'')) 0 0
                                        (reach named_session_over)))) ''bus-1''
        = Some ''outbound''"
    by simp
  from b st dir 1 2 show ?thesis by simp
qed

section \<open>A driver that says hello again\<close>

text \<open>
  Claim C10, as it stands, fails on its last part: the assign is not without effect
  for a driver that already has the room. The driver of \<open>bus-1\<close> has sent telemetry
  and is alone in its room; assigning it to \<open>bus-1\<close> as driver again deletes the
  stored snapshot, so the state after the assign is not the state before.
\<close>

theorem repeated_hello_purges_snapshot_counterexample:
  "drives (reach driver_sent) 0 ''bus-1''
   \<and> role (meta (reach driver_sent) 0) = Some Driver
   \<and> deviceId (meta (reach driver_sent) 0) = Some ''bus-1''
   \<and> latestTelemetry (reach driver_sent) ''bus-1'' = Some (telemetry_out ''bus-1'')
   \<and> latestTelemetry (fst (assignSocketToRoom 0 ''bus-1'' Driver (reach driver_sent))) ''bus-1'' = None
   \<and> fst (assignSocketToRoom 0 ''bus-1'' Driver (reach driver_sent)) \<noteq> reach driver_sent"
proof -
  have a: "drives (reach driver_sent) 0 ''bus-1''
   \<and> role (meta (reach driver_sent) 0) = Some Driver
   \<and> deviceId (meta (reach driver_sent) 0) = Some ''bus-1''
   \<and> latestTelemetry (reach driver_sent) ''bus-1'' = Some (telemetry_out ''bus-1'')
   \<and> latestTelemetry (fst (assignSocketToRoom 0 ''bus-1'' Driver (reach driver_sent))) ''bus-1'' = None"
    by (simp add: drives_def ex_defs run_defs)
  then have "latestTelemetry (fst (assignSocketToRoom 0 ''bus-1'' Driver (reach driver_sent))) ''bus-1''
      \<noteq> latestTelemetry (reach driver_sent) ''bus-1''" by simp
  then have "fst (assignSocketToRoom 0 ''bus-1'' Driver (reach driver_sent)) \<noteq> reach driver_sent"
    by metis
  with a show ?thesis by simp
qed

text \<open>
  Claim C10, amended. A driver that is assigned again to the room it drives is not
  closed: the assign closes nothing, and it leaves the rooms (the driver slot and
  the viewers of every room), the \<^verbatim>\<open>meta\<close> of every socket and the state of every
  socket as they were; the same holds for the whole hello message, which closes
  nothing. A close is issued by an assign only with code 1001 and reason "driver
  replaced", only in a driver assign, and only to a socket other than the assigned
  one that was the driver of the room.
\<close>

theorem repeated_driver_hello:
  "(drives s ws d \<longrightarrow> role (meta s ws) = Some Driver \<longrightarrow> deviceId (meta s ws) = Some d \<longrightarrow> d \<noteq> [] \<longrightarrow>
      snd (assignSocketToRoom ws d Driver s) = []
      \<and> rooms (fst (assignSocketToRoom ws d Driver s)) = rooms s
      \<and> meta (fst (assignSocketToRoom ws d Driver s)) = meta s
      \<and> readyState (fst (assignSocketToRoom ws d Driver s)) = readyState s)
   \<and> (Close c code reason \<in> set (snd (assignSocketToRoom ws d r s)) \<longrightarrow>
      r = Driver \<and> c \<noteq> ws \<and> drives s c d \<and> code = 1001 \<and> reason = ''driver replaced'')
   \<and> (drives s ws d \<longrightarrow> role (meta s ws) = Some Driver \<longrightarrow> deviceId (meta s ws) = Some d \<longrightarrow>
      validateHello msg = None \<longrightarrow> msg_role msg = Some Driver \<longrightarrow> msg_deviceId msg = Some d \<longrightarrow>
        filter is_close (snd (on_message ws (Some msg) t0 now s)) = []
        \<and> rooms (fst (on_message ws (Some msg) t0 now s)) = rooms s
        \<and> meta (fst (on_message ws (Some msg) t0 now s)) = meta s
        \<and> readyState (fst (on_message ws (Some msg) t0 now s)) = readyState s)"
proof -
  have a: "drives s ws d \<longrightarrow> role (meta s ws) = Some Driver \<longrightarrow> deviceId (meta s ws) = Some d \<longrightarrow> d \<noteq> [] \<longrightarrow>
      snd (assignSocketToRoom ws d Driver s) = []
      \<and> rooms (fst (assignSocketToRoom ws d Driver s)) = rooms s
      \<and> meta (fst (assignSocketToRoom ws d Driver s)) = meta s
      \<and> readyState (fst (assignSocketToRoom ws d Driver s)) = readyState s"
    using assign_same_driver [of s ws d] by blast
  have b: "Close c code reason \<in> set (snd (assignSocketToRoom ws d r s)) \<longrightarrow>
      r = Driver \<and> c \<noteq> ws \<and> drives s c d \<and> code = 1001 \<and> reason = ''driver replaced''"
    using assign_effects [of "Close c code reason" ws d r s] remove_drives_other [of c ws s d]
    by auto
  have c: "drives s ws d \<longrightarrow> role (meta s ws) = Some Driver \<longrightarrow> deviceId (meta s ws) = Some d \<longrightarrow>
      validateHello msg = None \<longrightarrow> msg_role msg = Some Driver \<longrightarrow> msg_deviceId msg = Some d \<longrightarrow>
        filter is_close (snd (on_message ws (Some msg) t0 now s)) = []
        \<and> rooms (fst (on_message ws (Some msg) t0 now s)) = rooms s
        \<and> meta (fst (on_message ws (Some msg) t0 now s)) = meta s
        \<and> readyState (fst (on_message ws (Some msg) t0 now s)) = readyState s"
  proof (intro impI)
    assume h: "drives s ws d" "role (meta s ws) = Some Driver" "deviceId (meta s ws) = Some d"
      and v: "validateHello msg = None" "msg_role msg = Some Driver" "msg_deviceId msg = Some d"
    from validateHello_accepts [OF v(1)] v(3) have "d \<noteq> []" by auto
    note same = assign_same_driver [OF h this]
    show "filter is_close (snd (on_message ws (Some msg) t0 now s)) = []
        \<and> rooms (fst (on_message ws (Some msg) t0 now s)) = rooms s
        \<and> meta (fst (on_message ws (Some msg) t0 now s)) = meta s
        \<and> readyState (fst (on_message ws (Some msg) t0 now s)) = readyState s"
      using same by (simp add: on_message_hello [OF v(1) v(3) v(2)] Let_def sendJson_def)
  qed
  from a b c show ?thesis by blast
qed

theorem repeated_driver_hello_witness:
  "drives (reach driver_sent) 0 ''bus-1'' \<and> role (meta (reach driver_sent) 0) = Some Driver
   \<and> deviceId (meta (reach driver_sent) 0) = Some ''bus-1'' \<and> ''bus-1'' \<noteq> []
   \<and> validateHello (hello_msg ''driver'' ''bus-1'') = None
   \<and> msg_role (hello_msg ''driver'' ''bus-1'') = Some Driver
   \<and> msg_deviceId (hello_msg ''driver'' ''bus-1'') = Some ''bus-1''
   \<and> snd (assignSocketToRoom 0 ''bus-1'' Driver (reach driver_sent)) = []
   \<and> rooms (fst (assignSocketToRoom 0 ''bus-1'' Driver (reach driver_sent))) = rooms (reach driver_sent)
   \<and> snd (on_message 0 (Some (hello_msg ''driver'' ''bus-1'')) 20 20 (reach driver_sent))
       = [Send 0 (helloAck Driver ''bus-1'' [] None)]
   \<and> rooms (fst (on_message 0 (Some (hello_msg ''driver'' ''bus-1'')) 20 20 (reach driver_sent)))
       = rooms (reach driver_sent)
   \<and> readyState (fst (on_message 0 (Some (hello_msg ''driver'' ''bus-1'')) 20 20 (reach driver_sent))) 0 = OPEN
   \<and> Close 0 1001 ''driver replaced'' \<in> set (snd (assignSocketToRoom 1 ''bus-1'' Driver (reach two_sockets)))
   \<and> (0::nat) \<noteq> 1 \<and> drives (reach two_sockets) 0 ''bus-1''"
proof -
  have st: "drives (reach driver_sent) 0 ''bus-1'' \<and> role (meta (reach driver_sent) 0) = Some Driver
      \<and> deviceId (meta (reach driver_sent) 0) = Some ''bus-1''
      \<and> readyState (reach driver_sent) 0 = OPEN"
    by (simp add: drives_def ex_defs run_defs)
  have v: "validateHello (hello_msg ''driver'' ''bus-1'') = None
      \<and> msg_role (hello_msg ''driver'' ''bus-1'') = Some Driver
      \<and> msg_deviceId (hello_msg ''driver'' ''bus-1'') = Some ''bus-1''"
    by (simp add: hello_msg_def validateHello_def msg_role_def msg_deviceId_def trim_def is_ws_def)
  have out: "snd (on_message 0 (Some (hello_msg ''driver'' ''bus-1'')) 20 20 (reach driver_sent))
       = [Send 0 (helloAck Driver ''bus-1'' [] None)]"
    by (simp add: ex_defs run_defs)
  have cl: "Close 0 1001 ''driver replaced'' \<in> set (snd (assignSocketToRoom 1 ''bus-1'' Driver (reach two_sockets)))"
    by (simp add: ex_defs run_defs)
  note t = repeated_driver_hello [where s = "reach driver_sent" and ws = 0 and d = "''bus-1''"
      and msg = "hello_msg ''driver'' ''bus-1''" and ?t0.0 = 20 and now = 20]
  note u = repeated_driver_hello [where s = "reach two_sockets" and ws = 1 and d = "''bus-1''"
      and r = Driver and c = 0 and code = 1001 and reason = "''driver replaced''"]
  from u cl have 1: "(0::nat) \<noteq> 1 \<and> drives (reach two_sockets) 0 ''bus-1''" by blast
  from t st v have 2: "snd (assignSocketToRoom 0 ''bus-1'' Driver (reach driver_sent)) = []
      \<and> rooms (fst (assignSocketToRoom 0 ''bus-1'' Driver (reach driver_sent))) = rooms (reach driver_sent)
      \<and> rooms (fst (on_message 0 (Some (hello_msg ''driver'' ''bus-1'')) 20 20 (reach driver_sent)))
          = rooms (reach driver_sent)
      \<and> readyState (fst (on_message 0 (Some (hello_msg ''driver'' ''bus-1'')) 20 20 (reach driver_sent))) 0 = OPEN"
    by simp
  from st v out cl 1 2 show ?thesis by simp
qed

end
